theory Spec2Isabelle
  imports Main "HOL-Library.Word"
begin

section \<open>JavaScript strings\<close>

text \<open>
  A JavaScript string is a sequence of UTF-16 code units. Regular expressions without the
  \<^verbatim>\<open>u\<close> flag, \<^verbatim>\<open>slice\<close>, \<^verbatim>\<open>===\<close> and \<^verbatim>\<open>length\<close> all work on code units.
  ASCII literals of the source are written \<open>js ''...''\<close>.
\<close>

type_synonym code_unit = "16 word"
type_synonym js_string = "code_unit list"

definition js :: "string \<Rightarrow> js_string" where
  "js s = map (\<lambda>c. of_nat (of_char c)) s"

definition underscore :: code_unit where
  "underscore = 0x5F"

text \<open>\<^verbatim>\<open>[0-9]\<close>, \<^verbatim>\<open>[A-Z]\<close> and \<^verbatim>\<open>[a-z]\<close> as ranges of code units.\<close>

definition isDigit :: "code_unit \<Rightarrow> bool" where
  "isDigit c = (0x30 \<le> c \<and> c \<le> 0x39)"

definition isUpper :: "code_unit \<Rightarrow> bool" where
  "isUpper c = (0x41 \<le> c \<and> c \<le> 0x5A)"

definition isLower :: "code_unit \<Rightarrow> bool" where
  "isLower c = (0x61 \<le> c \<and> c \<le> 0x7A)"

text \<open>
  The class \<^verbatim>\<open>[a-z0-9]\<close> under the \<^verbatim>\<open>i\<close> flag (and no \<^verbatim>\<open>u\<close> flag): the case-insensitive
  comparison never identifies a code unit above 127 with an ASCII one, so the class holds
  exactly the ASCII letters of both cases and the digits.
\<close>

definition isAlnum :: "code_unit \<Rightarrow> bool" where
  "isAlnum c = (isLower c \<or> isUpper c \<or> isDigit c)"

section \<open>\<^verbatim>\<open>src/utils/file.ts\<close>: sanitizeFileName\<close>

text \<open>\<^verbatim>\<open>.replace(/[^a-z0-9]/gi, '_')\<close>: every code unit outside the class becomes an underscore.\<close>

definition replaceNonAlnum :: "js_string \<Rightarrow> js_string" where
  "replaceNonAlnum name = map (\<lambda>c. if isAlnum c then c else underscore) name"

text \<open>
  \<^verbatim>\<open>.replace(/_+/g, '_')\<close>: scanning from the left, each maximal run of underscores (the
  greedy match of \<^verbatim>\<open>_+\<close>) is replaced by one underscore and the scan goes on behind the run.
\<close>

function collapseUnderscores :: "js_string \<Rightarrow> js_string" where
  "collapseUnderscores [] = []"
| "collapseUnderscores (c # cs) =
     (if c = underscore
      then underscore # collapseUnderscores (dropWhile (\<lambda>d. d = underscore) cs)
      else c # collapseUnderscores cs)"
  by pat_completeness auto
termination
  by (relation "measure length") (auto simp: less_Suc_eq_le length_dropWhile_le)

text \<open>
  \<^verbatim>\<open>.replace(/^_|_$/g, '')\<close>: scanning from the left, an underscore is deleted when it stands
  at index 0 (\<^verbatim>\<open>^_\<close>) or is the last code unit (\<^verbatim>\<open>_$\<close>). The flag says whether the scan is
  still at index 0.
\<close>

fun stripScan :: "bool \<Rightarrow> js_string \<Rightarrow> js_string" where
  "stripScan atStart [] = []"
| "stripScan atStart (c # cs) =
     (if c = underscore \<and> (atStart \<or> cs = [])
      then stripScan False cs
      else c # stripScan False cs)"

definition stripEnds :: "js_string \<Rightarrow> js_string" where
  "stripEnds s = stripScan True s"

text \<open>
  \<^verbatim>\<open>.toLowerCase()\<close> on the ASCII range: \<^verbatim>\<open>A\<close>..\<^verbatim>\<open>Z\<close> move to \<^verbatim>\<open>a\<close>..\<^verbatim>\<open>z\<close>, every other
  ASCII code unit stays. The Unicode case mapping of code units above 127 is not part of
  the model (they are left as they are): \<open>sanitizeFileName\<close> lowercases a string in
  which the first replacement has left only ASCII letters, digits and underscores
  (lemma \<open>toLowerCase_input_ascii\<close> below).
\<close>

definition toLowerUnit :: "code_unit \<Rightarrow> code_unit" where
  "toLowerUnit c = (if isUpper c then c + 0x20 else c)"

definition toLowerCase :: "js_string \<Rightarrow> js_string" where
  "toLowerCase s = map toLowerUnit s"

text \<open>\<^verbatim>\<open>.slice(0, 50)\<close>: the first 50 code units, or all of them when there are fewer.\<close>

definition slice0 :: "nat \<Rightarrow> js_string \<Rightarrow> js_string" where
  "slice0 n s = take n s"

definition sanitizeFileName :: "js_string \<Rightarrow> js_string" where
  "sanitizeFileName name =
     slice0 50 (toLowerCase (stripEnds (collapseUnderscores (replaceNonAlnum name))))"

subsection \<open>The shape of a storage key\<close>

text \<open>\<^verbatim>\<open>[a-z0-9]\<close> without the \<^verbatim>\<open>i\<close> flag.\<close>

definition isKeyChar :: "code_unit \<Rightarrow> bool" where
  "isKeyChar c = (isLower c \<or> isDigit c)"

text \<open>
  The pattern \<^verbatim>\<open>^[a-z0-9]+(_[a-z0-9]+)*$\<close> as the run of its two-state automaton: the flag
  says that the code unit just read was in \<^verbatim>\<open>[a-z0-9]\<close>, which is when the input may end and
  when an underscore may follow.
\<close>

fun keyScan :: "bool \<Rightarrow> js_string \<Rightarrow> bool" where
  "keyScan afterAlnum [] = afterAlnum"
| "keyScan afterAlnum (c # cs) =
     (if isKeyChar c then keyScan True cs
      else if c = underscore \<and> afterAlnum then keyScan False cs
      else False)"

definition matchesKey :: "js_string \<Rightarrow> bool" where
  "matchesKey s = keyScan False s"

definition startsWithUnderscore :: "js_string \<Rightarrow> bool" where
  "startsWithUnderscore s = (s \<noteq> [] \<and> hd s = underscore)"

definition endsWithUnderscore :: "js_string \<Rightarrow> bool" where
  "endsWithUnderscore s = (s \<noteq> [] \<and> last s = underscore)"

fun doubleUnderscore :: "js_string \<Rightarrow> bool" where
  "doubleUnderscore (c # d # cs) = (c = underscore \<and> d = underscore \<or> doubleUnderscore (d # cs))"
| "doubleUnderscore cs = False"

text \<open>Texts over \<^verbatim>\<open>[A-Za-z0-9_]\<close> and over \<^verbatim>\<open>[a-z0-9_]\<close>.\<close>

definition alnumText :: "js_string \<Rightarrow> bool" where
  "alnumText s = list_all (\<lambda>c. isAlnum c \<or> c = underscore) s"

definition keyText :: "js_string \<Rightarrow> bool" where
  "keyText s = list_all (\<lambda>c. isKeyChar c \<or> c = underscore) s"

text \<open>The text before the final \<^verbatim>\<open>slice\<close>.\<close>

definition normalise :: "js_string \<Rightarrow> js_string" where
  "normalise name = toLowerCase (stripEnds (collapseUnderscores (replaceNonAlnum name)))"

section \<open>\<^verbatim>\<open>src/App.tsx\<close>: state, effects and the external services\<close>

text \<open>
  The component's four \<^verbatim>\<open>useState\<close> cells. \<^verbatim>\<open>generatedImage\<close> has type
  \<^verbatim>\<open>string | null\<close>; \<open>None\<close> is \<^verbatim>\<open>null\<close>.
\<close>

record app_state =
  generatedImage :: "js_string option"
  isLoading :: bool
  images :: "js_string list"
  prompt :: js_string

text \<open>The initial values given to \<^verbatim>\<open>useState\<close>.\<close>

definition initialState :: app_state where
  "initialState = \<lparr>generatedImage = None, isLoading = False, images = [], prompt = []\<rparr>"

datatype js_error =
    Error js_string
  | TypeError
  | SyntaxError
  | InvalidCharacterError

datatype storage_error = StorageError js_string

text \<open>
  What a handler does to the outside, in program order: calls of the state setters, console
  output and the upload sent to the storage service.
\<close>

datatype effect =
    SetGeneratedImage "js_string option"
  | SetIsLoading bool
  | SetImages "js_string list"
  | ConsoleError js_string storage_error
  | ConsoleLog js_string
  | StorageUpload js_string "8 word list" js_string

fun applyEffect :: "effect \<Rightarrow> app_state \<Rightarrow> app_state" where
  "applyEffect (SetGeneratedImage v) s = s\<lparr>generatedImage := v\<rparr>"
| "applyEffect (SetIsLoading v) s = s\<lparr>isLoading := v\<rparr>"
| "applyEffect (SetImages v) s = s\<lparr>images := v\<rparr>"
| "applyEffect (ConsoleError m e) s = s"
| "applyEffect (ConsoleLog m) s = s"
| "applyEffect (StorageUpload k b t) s = s"

definition run :: "effect list \<Rightarrow> app_state \<Rightarrow> app_state" where
  "run es s = fold applyEffect es s"

text \<open>
  An \<^verbatim>\<open>async\<close> handler ends with its effects done so far and either returns or throws
  (its promise rejects).
\<close>

record handler_result =
  effects :: "effect list"
  thrown :: "js_error option"

subsection \<open>The storage client\<close>

text \<open>
  Every call of the storage client resolves to an object with a \<^verbatim>\<open>data\<close> and an
  \<^verbatim>\<open>error\<close> member, one of them \<^verbatim>\<open>null\<close>. The fields of the three responses carry the
  names the source destructures them to. Of a listed object only \<^verbatim>\<open>name\<close> is read.
\<close>

record file_object =
  name :: js_string

record list_response =
  data :: "file_object list option"
  error :: "storage_error option"

record signed_url =
  signedUrl :: js_string

record signed_url_response =
  signedUrlData :: "signed_url option"
  signedUrlError :: "storage_error option"

record upload_response =
  uploadError :: "storage_error option"

subsection \<open>fetchImages\<close>

text \<open>
  The \<^verbatim>\<open>async (image) => ...\<close> callback given to \<^verbatim>\<open>data.map\<close> (its parameter is \<open>img\<close>
  here): its console output and the string its promise resolves to.
\<close>

definition imageUrl ::
  "(js_string \<Rightarrow> nat \<Rightarrow> signed_url_response) \<Rightarrow> file_object \<Rightarrow> effect list \<times> js_string" where
  "imageUrl createSignedUrl img =
     (if name img = js ''.emptyFolderPlaceholder'' then ([], [])
      else
        let r = createSignedUrl (name img) 60 in
        case signedUrlError r of
          Some e \<Rightarrow> ([ConsoleError (js ''Error creating signed URL:'') e], [])
        | None \<Rightarrow> ([], case signedUrlData r of None \<Rightarrow> [] | Some d \<Rightarrow> signedUrl d))"

text \<open>
  \<^verbatim>\<open>Promise.all\<close> resolves to the callbacks' results in the order of the array it was given,
  whatever the order in which they complete. The callbacks' console lines are listed
  callback by callback, in listing order; at run time they appear in completion order.
  The one state write follows all of them.
\<close>

definition fetchImages ::
  "list_response \<Rightarrow> (js_string \<Rightarrow> nat \<Rightarrow> signed_url_response) \<Rightarrow> handler_result" where
  "fetchImages listing createSignedUrl =
     (case error listing of
        Some e \<Rightarrow> \<lparr>effects = [ConsoleError (js ''Error fetching images:'') e], thrown = None\<rparr>
      | None \<Rightarrow>
         (case data listing of
            None \<Rightarrow> \<lparr>effects = [], thrown = None\<rparr>
          | Some files \<Rightarrow>
              let results = map (imageUrl createSignedUrl) files;
                  imageUrls = map snd results
              in \<lparr>effects = concat (map fst results) @ [SetImages imageUrls], thrown = None\<rparr>))"

text \<open>The writes of the gallery state among the effects of a handler.\<close>

fun isSetImages :: "effect \<Rightarrow> bool" where
  "isSetImages (SetImages v) = True"
| "isSetImages e = False"

subsection \<open>handleGenerateImage\<close>

text \<open>
  The value \<^verbatim>\<open>response.json()\<close> resolves to, before the unchecked cast to
  \<^verbatim>\<open>GenerationResponse\<close>: any JSON value. \<open>JUndefined\<close> is what reading a missing property
  gives. A number is kept as the text \<^verbatim>\<open>String\<close> gives for it, the only thing the handler can
  observe of a number. An object lists its members in the order of the JSON text.
\<close>

datatype js_value =
    JUndefined
  | JNull
  | JBool bool
  | JNumber js_string
  | JString js_string
  | JArray "js_value list"
  | JObject "(js_string \<times> js_value) list"

text \<open>
  Property reads \<^verbatim>\<open>v.artifacts\<close>, \<^verbatim>\<open>v[0]\<close> and \<^verbatim>\<open>v.base64\<close>, for these three keys only
  (none of them is inherited from a prototype). Reading a property of \<^verbatim>\<open>undefined\<close> or
  \<^verbatim>\<open>null\<close> throws a \<^verbatim>\<open>TypeError\<close>; of a repeated member of a JSON object the last one counts;
  index \<^verbatim>\<open>0\<close> of a string is its first code unit.
\<close>

fun getProperty :: "js_value \<Rightarrow> js_string \<Rightarrow> js_error + js_value" where
  "getProperty JUndefined key = Inl TypeError"
| "getProperty JNull key = Inl TypeError"
| "getProperty (JObject members) key =
     Inr (case map_of (rev members) key of None \<Rightarrow> JUndefined | Some v \<Rightarrow> v)"
| "getProperty (JArray elems) key =
     Inr (if key = js ''0'' then (case elems of [] \<Rightarrow> JUndefined | v # vs \<Rightarrow> v) else JUndefined)"
| "getProperty (JString str) key =
     Inr (if key = js ''0'' then (case str of [] \<Rightarrow> JUndefined | c # cs \<Rightarrow> JString [c])
          else JUndefined)"
| "getProperty (JBool b) key = Inr JUndefined"
| "getProperty (JNumber n) key = Inr JUndefined"

fun joinWith :: "js_string \<Rightarrow> js_string list \<Rightarrow> js_string" where
  "joinWith sep [] = []"
| "joinWith sep [x] = x"
| "joinWith sep (x # y # zs) = x @ sep @ joinWith sep (y # zs)"

text \<open>
  The conversion to a string that a template literal applies to \<^verbatim>\<open>${base64Image}\<close>. An array
  is its elements joined by commas, from left to right, \<^verbatim>\<open>null\<close> and \<^verbatim>\<open>undefined\<close> elements
  giving the empty string. A JSON object is \<^verbatim>\<open>[object Object]\<close>, unless it has a member
  \<^verbatim>\<open>toString\<close> of its own: that member is not a function, and the conversion then
  throws a \<^verbatim>\<open>TypeError\<close>.
\<close>

fun collect :: "(js_error + 'a) list \<Rightarrow> js_error + 'a list" where
  "collect [] = Inr []"
| "collect (Inl e # rs) = Inl e"
| "collect (Inr x # rs) = (case collect rs of Inl e \<Rightarrow> Inl e | Inr xs \<Rightarrow> Inr (x # xs))"

fun toStringValue :: "js_value \<Rightarrow> js_error + js_string" where
  "toStringValue JUndefined = Inr (js ''undefined'')"
| "toStringValue JNull = Inr (js ''null'')"
| "toStringValue (JBool b) = Inr (if b then js ''true'' else js ''false'')"
| "toStringValue (JNumber n) = Inr n"
| "toStringValue (JString str) = Inr str"
| "toStringValue (JArray elems) =
     (case collect
             (map (\<lambda>v. if v = JUndefined \<or> v = JNull then Inr [] else toStringValue v) elems) of
        Inl e \<Rightarrow> Inl e
      | Inr parts \<Rightarrow> Inr (joinWith (js '','') parts))"
| "toStringValue (JObject members) =
     (if map_of members (js ''toString'') = None then Inr (js ''[object Object]'')
      else Inl TypeError)"

text \<open>
  The request handed to \<^verbatim>\<open>fetch\<close> and what the handler reads of the response:
  \<^verbatim>\<open>response.ok\<close> and the outcome of \<^verbatim>\<open>await response.json()\<close>, which rejects with a
  \<^verbatim>\<open>SyntaxError\<close> when the body is not JSON. \<^verbatim>\<open>fetch\<close> itself rejects with a \<^verbatim>\<open>TypeError\<close>
  when the request cannot be made.
\<close>

record generation_body =
  text_prompts :: "js_string list"
  cfg_scale :: nat
  height :: nat
  width :: nat
  steps :: nat
  samples :: nat

record request =
  url :: js_string
  http_method :: js_string
  headers :: "(js_string \<times> js_string) list"
  body :: generation_body

record response =
  ok :: bool
  json :: "js_error + js_value"

definition engineId :: js_string where
  "engineId = js ''stable-diffusion-v1-6''"

definition apiHost :: js_string where
  "apiHost = js ''https://api.stability.ai''"

text \<open>
  \<open>apiKey\<close> is \<^verbatim>\<open>import.meta.env.VITE_STABILITY_API_KEY\<close>; the request is the argument of
  \<^verbatim>\<open>fetch\<close>, with the body before \<^verbatim>\<open>JSON.stringify\<close> (\<open>http_method\<close> is its \<^verbatim>\<open>method\<close>). In the message of the thrown
  \<^verbatim>\<open>Error\<close>, \<^verbatim>\<open>response.text()\<close> is a promise that is not awaited, so the template literal
  renders it as \<^verbatim>\<open>[object Promise]\<close>.
\<close>

definition generationRequest :: "js_string \<Rightarrow> js_string \<Rightarrow> request" where
  "generationRequest apiKey text =
     \<lparr>url = apiHost @ js ''/v1/generation/'' @ engineId @ js ''/text-to-image'',
      http_method = js ''POST'',
      headers = [(js ''Content-Type'', js ''application/json''),
                 (js ''Accept'', js ''application/json''),
                 (js ''Authorization'', js ''Bearer '' @ apiKey)],
      body = \<lparr>text_prompts = [text], cfg_scale = 7, height = 1024,
               width = 1024, steps = 30, samples = 1\<rparr>\<rparr>"

definition handleGenerateImage ::
  "(request \<Rightarrow> js_error + response) \<Rightarrow> js_string \<Rightarrow> app_state \<Rightarrow> handler_result" where
  "handleGenerateImage fetch apiKey s =
     (case fetch (generationRequest apiKey (prompt s)) of
        Inl e \<Rightarrow> \<lparr>effects = [SetIsLoading True], thrown = Some e\<rparr>
      | Inr resp \<Rightarrow>
          if \<not> ok resp
          then \<lparr>effects = [SetIsLoading True, SetIsLoading False],
                thrown = Some (Error (js ''Non-200 response: [object Promise]''))\<rparr>
          else
            (case json resp of
               Inl e \<Rightarrow> \<lparr>effects = [SetIsLoading True], thrown = Some e\<rparr>
             | Inr responseJSON \<Rightarrow>
                 (case getProperty responseJSON (js ''artifacts'') of
                    Inl e \<Rightarrow> \<lparr>effects = [SetIsLoading True], thrown = Some e\<rparr>
                  | Inr artifacts \<Rightarrow>
                      (case getProperty artifacts (js ''0'') of
                         Inl e \<Rightarrow> \<lparr>effects = [SetIsLoading True], thrown = Some e\<rparr>
                       | Inr artifact \<Rightarrow>
                           (case getProperty artifact (js ''base64'') of
                              Inl e \<Rightarrow> \<lparr>effects = [SetIsLoading True], thrown = Some e\<rparr>
                            | Inr base64Image \<Rightarrow>
                                (case toStringValue base64Image of
                                   Inl e \<Rightarrow> \<lparr>effects = [SetIsLoading True], thrown = Some e\<rparr>
                                 | Inr text \<Rightarrow>
                                     \<lparr>effects =
                                        [SetIsLoading True,
                                         SetGeneratedImage
                                           (Some (js ''data:image/png;base64,'' @ text)),
                                         SetIsLoading False],
                                      thrown = None\<rparr>))))))"

subsection \<open>handleSaveImage\<close>

text \<open>\<^verbatim>\<open>\w\<close>: an ASCII letter, a digit or the underscore.\<close>

definition isWordChar :: "code_unit \<Rightarrow> bool" where
  "isWordChar c = (isAlnum c \<or> c = underscore)"

text \<open>
  \<^verbatim>\<open>generatedImage.replace(/^data:image\/\w+;base64,/, "")\<close>. The pattern can match at index 0
  only. After \<^verbatim>\<open>data:image/\<close> the greedy \<^verbatim>\<open>\w+\<close> takes the longest run of word characters;
  giving back part of the run cannot help, since \<^verbatim>\<open>;\<close> would then have to match a word
  character. Without a match the string is returned as it is.
\<close>

definition stripDataUriPrefix :: "js_string \<Rightarrow> js_string" where
  "stripDataUriPrefix str =
     (let p = js ''data:image/''; q = js '';base64,'' in
      if take (length p) str = p
      then
        let rest = drop (length p) str;
            subtype = takeWhile isWordChar rest;
            tail = dropWhile isWordChar rest
        in if subtype \<noteq> [] \<and> take (length q) tail = q then drop (length q) tail else str
      else str)"

text \<open>
  The browser's \<^verbatim>\<open>atob\<close>, which is the forgiving-base64 decoding of the HTML standard:
  ASCII whitespace is removed; when the length is then a multiple of 4, one or two closing
  \<^verbatim>\<open>=\<close> are removed; a length of 1 modulo 4 or a code unit outside the base64 alphabet makes
  it throw an \<^verbatim>\<open>InvalidCharacterError\<close>; otherwise every four code units give three bytes,
  and two or three left over give one or two. The result is a string of code units below
  256.
\<close>

definition isAsciiWhitespace :: "code_unit \<Rightarrow> bool" where
  "isAsciiWhitespace c = (c = 0x09 \<or> c = 0x0A \<or> c = 0x0C \<or> c = 0x0D \<or> c = 0x20)"

definition isBase64Char :: "code_unit \<Rightarrow> bool" where
  "isBase64Char c = (isAlnum c \<or> c = 0x2B \<or> c = 0x2F)"

definition base64Value :: "code_unit \<Rightarrow> nat" where
  "base64Value c =
     (if isUpper c then unat c - 0x41
      else if isLower c then unat c - 0x61 + 26
      else if isDigit c then unat c - 0x30 + 52
      else if c = 0x2B then 62
      else 63)"

fun decodeSextets :: "nat list \<Rightarrow> nat list" where
  "decodeSextets (a # b # c # d # rest) =
     [a * 4 + b div 16, (b mod 16) * 16 + c div 4, (c mod 4) * 64 + d] @ decodeSextets rest"
| "decodeSextets [a, b, c] = [a * 4 + b div 16, (b mod 16) * 16 + c div 4]"
| "decodeSextets [a, b] = [a * 4 + b div 16]"
| "decodeSextets rest = []"

definition stripPadding :: "js_string \<Rightarrow> js_string" where
  "stripPadding str =
     (if length str mod 4 = 0
      then
        (if 2 \<le> length str \<and> drop (length str - 2) str = js ''==''
         then take (length str - 2) str
         else if 1 \<le> length str \<and> drop (length str - 1) str = js ''=''
         then take (length str - 1) str
         else str)
      else str)"

definition atob :: "js_string \<Rightarrow> js_error + js_string" where
  "atob str =
     (let d = stripPadding (filter (\<lambda>c. \<not> isAsciiWhitespace c) str) in
      if length d mod 4 = 1 then Inl InvalidCharacterError
      else if \<not> list_all isBase64Char d then Inl InvalidCharacterError
      else Inr (map of_nat (decodeSextets (map base64Value d))))"

text \<open>
  Lines 111 to 114: the prefix is cut off, the rest decoded, and
  \<^verbatim>\<open>Uint8Array.from(..., (c) => c.charCodeAt(0))\<close> stores each code unit as a byte.
\<close>

definition decodeImage :: "js_string \<Rightarrow> js_error + 8 word list" where
  "decodeImage generated =
     (let base64Data = stripDataUriPrefix generated in
      case atob base64Data of
        Inl e \<Rightarrow> Inl e
      | Inr decoded \<Rightarrow> Inr (map ucast decoded))"

text \<open>
  \<^verbatim>\<open>!generatedImage\<close> holds for \<^verbatim>\<open>null\<close> and for the empty string. The upload resolves to
  its response; an error in it is logged. An \<^verbatim>\<open>atob\<close> that throws ends the handler before
  the upload.
\<close>

definition handleSaveImage ::
  "(js_string \<Rightarrow> 8 word list \<Rightarrow> js_string \<Rightarrow> upload_response) \<Rightarrow> app_state \<Rightarrow> handler_result" where
  "handleSaveImage upload s =
     (case generatedImage s of
        None \<Rightarrow> \<lparr>effects = [], thrown = None\<rparr>
      | Some generated \<Rightarrow>
          if generated = [] then \<lparr>effects = [], thrown = None\<rparr>
          else
            let fileName = sanitizeFileName (prompt s) in
            (case decodeImage generated of
               Inl e \<Rightarrow> \<lparr>effects = [], thrown = Some e\<rparr>
             | Inr binaryData \<Rightarrow>
                 (case uploadError (upload fileName binaryData (js ''image/png'')) of
                    Some e \<Rightarrow>
                      \<lparr>effects = [StorageUpload fileName binaryData (js ''image/png''),
                                  ConsoleError (js ''Error uploading image:'') e],
                       thrown = None\<rparr>
                  | None \<Rightarrow>
                      \<lparr>effects = [StorageUpload fileName binaryData (js ''image/png''),
                                  ConsoleLog (js ''Image uploaded successfully'')],
                       thrown = None\<rparr>)))"

section \<open>Properties of sanitizeFileName\<close>

lemma underscore_not_alnum: "\<not> isAlnum underscore"
  by (simp add: isAlnum_def isLower_def isUpper_def isDigit_def underscore_def)

lemma keyChar_alnum: "isKeyChar c \<Longrightarrow> isAlnum c"
  by (auto simp: isKeyChar_def isAlnum_def)

lemma keyChar_not_underscore: "isKeyChar c \<Longrightarrow> c \<noteq> underscore"
  using underscore_not_alnum keyChar_alnum by blast

lemma underscore_not_keyChar: "\<not> isKeyChar underscore"
  using keyChar_not_underscore by blast

lemma keyChar_not_upper: "isKeyChar c \<Longrightarrow> \<not> isUpper c"
  by (auto simp: isKeyChar_def isLower_def isUpper_def isDigit_def word_le_nat_alt)

lemma toLowerUnit_alnum: "isAlnum c \<Longrightarrow> isKeyChar (toLowerUnit c)"
  by (auto simp: isKeyChar_def isAlnum_def toLowerUnit_def isLower_def isUpper_def isDigit_def
      word_le_nat_alt unat_word_ariths)

lemma toLowerUnit_underscore: "toLowerUnit underscore = underscore"
  by (simp add: toLowerUnit_def isUpper_def underscore_def)

lemma toLowerUnit_eq_underscore: "toLowerUnit c = underscore \<longleftrightarrow> c = underscore"
  by (auto simp: toLowerUnit_def isUpper_def underscore_def word_le_nat_alt unat_word_ariths)

lemma toLowerUnit_keyChar: "isKeyChar c \<Longrightarrow> toLowerUnit c = c"
  by (simp add: toLowerUnit_def keyChar_not_upper)

lemma keyText_def2: "keyText s = (\<forall>c \<in> set s. isKeyChar c \<or> c = underscore)"
  by (simp add: keyText_def list_all_iff)

lemma keyText_simps [simp]:
  "keyText []" "keyText (c # cs) \<longleftrightarrow> (isKeyChar c \<or> c = underscore) \<and> keyText cs"
  by (auto simp: keyText_def2)

lemma starts_simps [simp]:
  "\<not> startsWithUnderscore []" "startsWithUnderscore (c # cs) \<longleftrightarrow> c = underscore"
  by (auto simp: startsWithUnderscore_def)

lemma ends_simps [simp]:
  "\<not> endsWithUnderscore []" "endsWithUnderscore [c] \<longleftrightarrow> c = underscore"
  "endsWithUnderscore (c # d # cs) \<longleftrightarrow> endsWithUnderscore (d # cs)"
  by (auto simp: endsWithUnderscore_def)

lemma keyScan_iff:
  "keyScan p s \<longleftrightarrow>
     keyText s \<and> \<not> doubleUnderscore s \<and> \<not> endsWithUnderscore s \<and>
     (if s = [] then p else startsWithUnderscore s \<longrightarrow> p)"
proof (induction s arbitrary: p)
  case Nil
  show ?case by simp
next
  case (Cons c cs)
  have "keyScan p (c # cs) =
     (if isKeyChar c then keyScan True cs
      else if c = underscore \<and> p then keyScan False cs else False)"
    by simp
  also have "\<dots> \<longleftrightarrow> keyText (c # cs) \<and> \<not> doubleUnderscore (c # cs) \<and>
      \<not> endsWithUnderscore (c # cs) \<and> (startsWithUnderscore (c # cs) \<longrightarrow> p)"
    unfolding Cons.IH
    by (cases cs) (auto simp: keyChar_not_underscore underscore_not_keyChar)
  finally show ?case by simp
qed

lemma alnumText_def2: "alnumText s = (\<forall>c \<in> set s. isAlnum c \<or> c = underscore)"
  by (simp add: alnumText_def list_all_iff)

lemma replaceNonAlnum_alnumText: "alnumText (replaceNonAlnum x)"
  by (auto simp: alnumText_def2 replaceNonAlnum_def)

lemma collapse_subset: "set (collapseUnderscores s) \<subseteq> set s"
proof (induction s rule: collapseUnderscores.induct)
  case 1
  show ?case by simp
next
  case (2 c cs)
  have "set (dropWhile (\<lambda>d. d = underscore) cs) \<subseteq> set cs"
    by (auto dest: set_dropWhileD)
  with 2 show ?case by auto
qed

lemma collapse_starts:
  "startsWithUnderscore (collapseUnderscores s) = startsWithUnderscore s"
  by (cases s) auto

lemma dropWhile_not_starts:
  "\<not> startsWithUnderscore (dropWhile (\<lambda>d. d = underscore) cs)"
  by (induction cs) auto

lemma double_Cons:
  "doubleUnderscore (c # cs) \<longleftrightarrow> c = underscore \<and> startsWithUnderscore cs \<or> doubleUnderscore cs"
  by (cases cs) auto

lemma collapse_no_double: "\<not> doubleUnderscore (collapseUnderscores s)"
  by (induction s rule: collapseUnderscores.induct)
     (auto simp: double_Cons collapse_starts dropWhile_not_starts)

lemma dropWhile_id: "\<not> startsWithUnderscore cs \<Longrightarrow> dropWhile (\<lambda>d. d = underscore) cs = cs"
  by (cases cs) auto

lemma collapse_id: "\<not> doubleUnderscore s \<Longrightarrow> collapseUnderscores s = s"
  by (induction s rule: collapseUnderscores.induct)
     (auto simp: double_Cons dropWhile_id)

lemma stripScan_False:
  "stripScan False s = (if endsWithUnderscore s then butlast s else s)"
proof (induction s)
  case Nil
  show ?case by simp
next
  case (Cons c cs)
  then show ?case by (cases cs) auto
qed

lemma stripEnds_alt:
  "stripEnds s = (if startsWithUnderscore s then stripScan False (tl s) else stripScan False s)"
  by (cases s) (auto simp: stripEnds_def)

lemma double_tl: "\<not> doubleUnderscore s \<Longrightarrow> \<not> doubleUnderscore (tl s)"
  by (cases s) (auto simp: double_Cons)

lemma double_butlast: "\<not> doubleUnderscore s \<Longrightarrow> \<not> doubleUnderscore (butlast s)"
proof (induction s)
  case Nil
  show ?case by simp
next
  case (Cons c cs)
  then show ?case by (cases cs) (auto simp: double_Cons split: if_splits)
qed

lemma starts_tl: "\<not> doubleUnderscore s \<Longrightarrow> startsWithUnderscore s \<Longrightarrow> \<not> startsWithUnderscore (tl s)"
  by (cases s) (auto simp: double_Cons)

lemma starts_butlast: "\<not> startsWithUnderscore s \<Longrightarrow> \<not> startsWithUnderscore (butlast s)"
  by (cases s) (auto split: if_splits)

lemma ends_butlast: "\<not> doubleUnderscore s \<Longrightarrow> endsWithUnderscore s \<Longrightarrow> \<not> endsWithUnderscore (butlast s)"
proof (induction s)
  case Nil
  then show ?case by simp
next
  case (Cons c cs)
  show ?case
  proof (cases cs)
    case Nil
    then show ?thesis by simp
  next
    case (Cons d ds)
    with Cons.prems Cons.IH show ?thesis
      by (cases ds) (auto simp: double_Cons)
  qed
qed

lemma stripScan_subset: "set (stripScan b s) \<subseteq> set s"
  by (induction s arbitrary: b) auto

lemma stripScan_False_props:
  assumes "\<not> doubleUnderscore s"
  shows "\<not> doubleUnderscore (stripScan False s)"
    and "\<not> endsWithUnderscore (stripScan False s)"
    and "\<not> startsWithUnderscore s \<Longrightarrow> \<not> startsWithUnderscore (stripScan False s)"
    and "set (stripScan False s) \<subseteq> set s"
  using assms
  by (auto simp: stripScan_False double_butlast ends_butlast starts_butlast dest: in_set_butlastD)

lemma stripEnds_props:
  assumes "\<not> doubleUnderscore s"
  shows "\<not> doubleUnderscore (stripEnds s)"
    and "\<not> endsWithUnderscore (stripEnds s)"
    and "\<not> startsWithUnderscore (stripEnds s)"
    and "set (stripEnds s) \<subseteq> set s"
proof -
  show "\<not> doubleUnderscore (stripEnds s)"
    using assms by (simp add: stripEnds_alt stripScan_False_props double_tl)
  show "\<not> endsWithUnderscore (stripEnds s)"
    using assms by (simp add: stripEnds_alt stripScan_False_props double_tl)
  show "\<not> startsWithUnderscore (stripEnds s)"
    using assms by (simp add: stripEnds_alt stripScan_False_props double_tl starts_tl)
  show "set (stripEnds s) \<subseteq> set s"
    by (simp add: stripEnds_def stripScan_subset)
qed

lemma lower_starts: "startsWithUnderscore (toLowerCase s) = startsWithUnderscore s"
  by (cases s) (auto simp: toLowerCase_def toLowerUnit_eq_underscore)

lemma lower_double: "doubleUnderscore (toLowerCase s) = doubleUnderscore s"
proof (induction s)
  case Nil
  show ?case by (simp add: toLowerCase_def)
next
  case (Cons c cs)
  have "toLowerCase (c # cs) = toLowerUnit c # toLowerCase cs"
    by (simp add: toLowerCase_def)
  with Cons show ?case
    by (simp add: double_Cons lower_starts toLowerUnit_eq_underscore)
qed

lemma lower_ends: "endsWithUnderscore (toLowerCase s) = endsWithUnderscore s"
  by (auto simp: endsWithUnderscore_def toLowerCase_def last_map toLowerUnit_eq_underscore)

lemma lower_keyText: "alnumText s \<Longrightarrow> keyText (toLowerCase s)"
  by (auto simp: alnumText_def2 keyText_def2 toLowerCase_def toLowerUnit_alnum toLowerUnit_underscore)

lemma lower_id: "keyText s \<Longrightarrow> toLowerCase s = s"
  by (auto simp: keyText_def2 toLowerCase_def toLowerUnit_keyChar toLowerUnit_underscore
      intro!: map_idI)

lemma alnumText_subset: "set t \<subseteq> set s \<Longrightarrow> alnumText s \<Longrightarrow> alnumText t"
  by (auto simp: alnumText_def2)

lemma keyText_subset: "set t \<subseteq> set s \<Longrightarrow> keyText s \<Longrightarrow> keyText t"
  by (auto simp: keyText_def2)

lemma keyText_alnumText: "keyText s \<Longrightarrow> alnumText s"
  by (auto simp: keyText_def2 alnumText_def2 keyChar_alnum)

lemma replace_id: "alnumText s \<Longrightarrow> replaceNonAlnum s = s"
  by (auto simp: alnumText_def2 replaceNonAlnum_def underscore_not_alnum intro!: map_idI)

lemma normalise_props:
  "keyText (normalise x)" "\<not> doubleUnderscore (normalise x)"
  "\<not> startsWithUnderscore (normalise x)" "\<not> endsWithUnderscore (normalise x)"
proof -
  let ?r = "replaceNonAlnum x"
  let ?c = "collapseUnderscores ?r"
  have c: "\<not> doubleUnderscore ?c" by (rule collapse_no_double)
  have "alnumText ?c"
    using collapse_subset replaceNonAlnum_alnumText by (rule alnumText_subset)
  with stripEnds_props(4) [OF c] have "alnumText (stripEnds ?c)"
    by (rule alnumText_subset)
  then show "keyText (normalise x)"
    by (simp add: normalise_def lower_keyText)
  show "\<not> doubleUnderscore (normalise x)"
    by (simp add: normalise_def lower_double stripEnds_props(1) [OF c])
  show "\<not> startsWithUnderscore (normalise x)"
    by (simp add: normalise_def lower_starts stripEnds_props(3) [OF c])
  show "\<not> endsWithUnderscore (normalise x)"
    by (simp add: normalise_def lower_ends stripEnds_props(2) [OF c])
qed

lemma toLowerCase_input_ascii:
  "alnumText (stripEnds (collapseUnderscores (replaceNonAlnum x)))"
proof -
  have "alnumText (collapseUnderscores (replaceNonAlnum x))"
    using collapse_subset replaceNonAlnum_alnumText by (rule alnumText_subset)
  with stripEnds_props(4) [OF collapse_no_double] show ?thesis
    by (rule alnumText_subset)
qed

lemma sanitize_normalise: "sanitizeFileName x = take 50 (normalise x)"
  by (simp add: sanitizeFileName_def normalise_def slice0_def)

lemma take_double: "\<not> doubleUnderscore s \<Longrightarrow> \<not> doubleUnderscore (take n s)"
proof (induction s arbitrary: n)
  case Nil
  show ?case by simp
next
  case (Cons c cs)
  show ?case
  proof (cases n)
    case 0
    then show ?thesis by simp
  next
    case (Suc m)
    have "startsWithUnderscore (take m cs) \<Longrightarrow> startsWithUnderscore cs"
      by (cases cs; cases m) auto
    with Cons Suc show ?thesis
      by (auto simp: double_Cons)
  qed
qed

lemma take_starts: "\<not> startsWithUnderscore s \<Longrightarrow> \<not> startsWithUnderscore (take n s)"
  by (cases s; cases n) auto

lemma sanitize_props:
  "keyText (sanitizeFileName x)" "\<not> doubleUnderscore (sanitizeFileName x)"
  "\<not> startsWithUnderscore (sanitizeFileName x)" "length (sanitizeFileName x) \<le> 50"
proof -
  show "keyText (sanitizeFileName x)"
    unfolding sanitize_normalise
    using set_take_subset normalise_props(1) by (rule keyText_subset)
  show "\<not> doubleUnderscore (sanitizeFileName x)"
    unfolding sanitize_normalise by (rule take_double) (rule normalise_props)
  show "\<not> startsWithUnderscore (sanitizeFileName x)"
    unfolding sanitize_normalise by (rule take_starts) (rule normalise_props)
  show "length (sanitizeFileName x) \<le> 50"
    by (simp add: sanitize_normalise)
qed

lemma matchesKey_iff:
  "matchesKey s \<longleftrightarrow> s \<noteq> [] \<and> keyText s \<and> \<not> doubleUnderscore s \<and>
     \<not> startsWithUnderscore s \<and> \<not> endsWithUnderscore s"
  unfolding matchesKey_def keyScan_iff by auto

lemma sanitize_of_key:
  assumes "keyText s" "\<not> doubleUnderscore s" "\<not> startsWithUnderscore s" "length s \<le> 50"
  shows "sanitizeFileName s = stripEnds s"
proof -
  have "replaceNonAlnum s = s"
    using assms(1) by (simp add: replace_id keyText_alnumText)
  moreover have "collapseUnderscores s = s"
    using assms(2) by (rule collapse_id)
  moreover have "keyText (stripEnds s)"
    using stripEnds_props(4) [OF assms(2)] assms(1) by (rule keyText_subset)
  then have "toLowerCase (stripEnds s) = stripEnds s"
    by (rule lower_id)
  moreover have "length (stripEnds s) \<le> 50"
    using assms(4) by (auto simp: stripEnds_alt stripScan_False)
  ultimately show ?thesis
    by (simp add: sanitizeFileName_def slice0_def)
qed

lemma stripEnds_clean:
  "\<not> startsWithUnderscore s \<Longrightarrow> \<not> endsWithUnderscore s \<Longrightarrow> stripEnds s = s"
  by (simp add: stripEnds_alt stripScan_False)

lemma keyScan_block:
  "list_all isKeyChar b \<Longrightarrow> keyScan p (b @ rest) = keyScan (p \<or> b \<noteq> []) rest"
  by (induction b arbitrary: p) auto

lemma joinWith_Cons:
  "joinWith sep ((c # f) # bl) = c # joinWith sep (f # bl)"
  by (cases bl) auto

lemma blocks_match:
  assumes "blocks \<noteq> []" and "\<forall>b \<in> set blocks. b \<noteq> [] \<and> list_all isKeyChar b"
  shows "keyScan False (joinWith [underscore] blocks)"
  using assms
proof (induction blocks)
  case Nil
  then show ?case by simp
next
  case (Cons x xs)
  then have x: "x \<noteq> []" "list_all isKeyChar x" by simp_all
  show ?case
  proof (cases xs)
    case Nil
    with x show ?thesis
      using keyScan_block [of x False "[]"] by simp
  next
    case (Cons y zs)
    with Cons.IH Cons.prems have "keyScan False (joinWith [underscore] (y # zs))"
      by simp
    with x Cons show ?thesis
      using keyScan_block [of x False "underscore # joinWith [underscore] (y # zs)"]
      by (simp add: underscore_not_keyChar)
  qed
qed

lemma keyScan_blocks:
  "keyScan p s \<Longrightarrow>
   \<exists>first blocks. list_all isKeyChar first \<and> (p \<or> first \<noteq> []) \<and>
     (\<forall>b \<in> set blocks. b \<noteq> [] \<and> list_all isKeyChar b) \<and>
     s = joinWith [underscore] (first # blocks)"
proof (induction s arbitrary: p)
  case Nil
  then have "list_all isKeyChar [] \<and> (p \<or> [] \<noteq> ([]::js_string)) \<and>
     (\<forall>b \<in> set ([]::js_string list). b \<noteq> [] \<and> list_all isKeyChar b) \<and>
     ([]::js_string) = joinWith [underscore] ([] # [])" by simp
  then show ?case by blast
next
  case (Cons c cs)
  show ?case
  proof (cases "isKeyChar c")
    case True
    with Cons.prems have "keyScan True cs" by simp
    from Cons.IH [OF this] obtain f bl where
      fb: "list_all isKeyChar f" "\<forall>b \<in> set bl. b \<noteq> [] \<and> list_all isKeyChar b"
        "cs = joinWith [underscore] (f # bl)" by blast
    have "list_all isKeyChar (c # f) \<and> (p \<or> c # f \<noteq> []) \<and>
       (\<forall>b \<in> set bl. b \<noteq> [] \<and> list_all isKeyChar b) \<and>
       c # cs = joinWith [underscore] ((c # f) # bl)"
      using True fb by (simp add: joinWith_Cons)
    then show ?thesis by blast
  next
    case False
    with Cons.prems have c: "c = underscore" "p" "keyScan False cs"
      by (auto split: if_splits)
    from Cons.IH [OF c(3)] obtain f bl where
      fb: "list_all isKeyChar f" "f \<noteq> []" "\<forall>b \<in> set bl. b \<noteq> [] \<and> list_all isKeyChar b"
        "cs = joinWith [underscore] (f # bl)" by blast
    have "list_all isKeyChar [] \<and> (p \<or> [] \<noteq> ([]::js_string)) \<and>
       (\<forall>b \<in> set (f # bl). b \<noteq> [] \<and> list_all isKeyChar b) \<and>
       c # cs = joinWith [underscore] ([] # f # bl)"
      using c fb by simp
    then show ?thesis by blast
  qed
qed

text \<open>
  The automaton accepts the pattern's language: one or more non-empty blocks over
  \<^verbatim>\<open>[a-z0-9]\<close>, joined by single underscores.
\<close>

lemma matchesKey_blocks:
  "matchesKey s \<longleftrightarrow>
     (\<exists>blocks. blocks \<noteq> [] \<and> (\<forall>b \<in> set blocks. b \<noteq> [] \<and> list_all isKeyChar b) \<and>
        s = joinWith [underscore] blocks)"
proof
  assume "matchesKey s"
  then have "keyScan False s" by (simp add: matchesKey_def)
  from keyScan_blocks [OF this] obtain first blocks where
    "list_all isKeyChar first" "first \<noteq> []"
    "\<forall>b \<in> set blocks. b \<noteq> [] \<and> list_all isKeyChar b"
    "s = joinWith [underscore] (first # blocks)" by blast
  then have "first # blocks \<noteq> [] \<and>
      (\<forall>b \<in> set (first # blocks). b \<noteq> [] \<and> list_all isKeyChar b) \<and>
      s = joinWith [underscore] (first # blocks)" by simp
  then show "\<exists>blocks. blocks \<noteq> [] \<and> (\<forall>b \<in> set blocks. b \<noteq> [] \<and> list_all isKeyChar b) \<and>
        s = joinWith [underscore] blocks" by blast
next
  assume "\<exists>blocks. blocks \<noteq> [] \<and> (\<forall>b \<in> set blocks. b \<noteq> [] \<and> list_all isKeyChar b) \<and>
        s = joinWith [underscore] blocks"
  then show "matchesKey s"
    using blocks_match by (auto simp: matchesKey_def)
qed

text \<open>The examples of the specification.\<close>

lemma sanitize_examples:
  "sanitizeFileName (js ''My Sunset! Photo'') = js ''my_sunset_photo''"
  "sanitizeFileName (js ''___'') = []"
  "length (sanitizeFileName (replicate 200 0x61)) = 50"
  by code_simp+

lemma sanitize_shape:
  "sanitizeFileName x = [] \<or> matchesKey (sanitizeFileName x) \<or>
   (50 < length (normalise x) \<and> length (sanitizeFileName x) = 50 \<and>
    endsWithUnderscore (sanitizeFileName x) \<and> matchesKey (butlast (sanitizeFileName x)))"
proof -
  let ?y = "sanitizeFileName x"
  note p = sanitize_props [of x]
  show ?thesis
  proof (cases "endsWithUnderscore ?y")
    case False
    with p show ?thesis by (simp add: matchesKey_iff)
  next
    case True
    have long: "50 < length (normalise x)"
    proof (rule ccontr)
      assume "\<not> 50 < length (normalise x)"
      then have "?y = normalise x" by (simp add: sanitize_normalise)
      with True normalise_props(4) [of x] show False by simp
    qed
    then have len: "length ?y = 50" by (simp add: sanitize_normalise)
    have "keyText (butlast ?y)"
      using p(1) by (auto simp: keyText_def2 dest: in_set_butlastD)
    moreover have "butlast ?y \<noteq> []"
      using len by (cases ?y rule: rev_cases) auto
    ultimately have "matchesKey (butlast ?y)"
      using p True by (simp add: matchesKey_iff double_butlast starts_butlast ends_butlast)
    with long len True show ?thesis by simp
  qed
qed

lemma sanitize_twice: "sanitizeFileName (sanitizeFileName x) = stripEnds (sanitizeFileName x)"
  using sanitize_props [of x] by (intro sanitize_of_key)

text \<open>
  Claim C10. For every input, the output of \<open>sanitizeFileName\<close> does not begin with an
  underscore and holds no two underscores in a row. It is empty, or matches
  \<^verbatim>\<open>^[a-z0-9]+(_[a-z0-9]+)*$\<close>, or the normalised text was longer than 50 code units and the
  50 that are kept are a text matching the pattern followed by one underscore.
\<close>

theorem sanitize_separators:
  "\<not> startsWithUnderscore (sanitizeFileName x) \<and>
   \<not> doubleUnderscore (sanitizeFileName x) \<and>
   (sanitizeFileName x = [] \<or> matchesKey (sanitizeFileName x) \<or>
    (50 < length (normalise x) \<and> length (sanitizeFileName x) = 50 \<and>
     (\<exists>k. matchesKey k \<and> sanitizeFileName x = k @ [underscore])))"
proof -
  let ?y = "sanitizeFileName x"
  have "\<exists>k. matchesKey k \<and> ?y = k @ [underscore]"
    if "endsWithUnderscore ?y" "matchesKey (butlast ?y)"
  proof -
    from that(1) have "?y = butlast ?y @ [underscore]"
      using append_butlast_last_id [of ?y] by (simp add: endsWithUnderscore_def)
    with that(2) show ?thesis by blast
  qed
  with sanitize_shape [of x] sanitize_props(2,3) [of x] show ?thesis by blast
qed

text \<open>Claim C10 at a text with leading, trailing and repeated separators.\<close>

theorem sanitize_separators_witness:
  "\<not> startsWithUnderscore (sanitizeFileName (js ''__My  Sunset!__Photo__'')) \<and>
   \<not> doubleUnderscore (sanitizeFileName (js ''__My  Sunset!__Photo__'')) \<and>
   sanitizeFileName (js ''__My  Sunset!__Photo__'') = js ''my_sunset_photo''"
proof -
  have "sanitizeFileName (js ''__My  Sunset!__Photo__'') = js ''my_sunset_photo''"
    by code_simp
  with sanitize_separators [of "js ''__My  Sunset!__Photo__''"] show ?thesis by blast
qed

text \<open>
  Claim C4 as stated fails: 49 letters, an underscore and a letter are cut after the
  underscore, and the result is neither empty nor a match of the pattern.
\<close>

theorem sanitize_pattern_counterexample:
  "sanitizeFileName (js ''aaaaaaaaaaaaaaaaaaaaaaaaaaaaaaaaaaaaaaaaaaaaaaaaa_b'') =
     js ''aaaaaaaaaaaaaaaaaaaaaaaaaaaaaaaaaaaaaaaaaaaaaaaaa_'' \<and>
   \<not> ((sanitizeFileName (js ''aaaaaaaaaaaaaaaaaaaaaaaaaaaaaaaaaaaaaaaaaaaaaaaaa_b'') = [] \<or>
        matchesKey (sanitizeFileName (js ''aaaaaaaaaaaaaaaaaaaaaaaaaaaaaaaaaaaaaaaaaaaaaaaaa_b''))) \<and>
       length (sanitizeFileName (js ''aaaaaaaaaaaaaaaaaaaaaaaaaaaaaaaaaaaaaaaaaaaaaaaaa_b'')) \<le> 50)"
  by code_simp

text \<open>
  Claim C4, amended. The output is at most 50 code units long, and it is empty, or matches
  \<^verbatim>\<open>^[a-z0-9]+(_[a-z0-9]+)*$\<close>, or ends in one underscore behind a text that matches the
  pattern. The third case needs the cut: when the normalised text has at most 50 code
  units the output is empty or matches the pattern.
\<close>

theorem sanitize_pattern_amended:
  "length (sanitizeFileName x) \<le> 50 \<and>
   (sanitizeFileName x = [] \<or> matchesKey (sanitizeFileName x) \<or>
    endsWithUnderscore (sanitizeFileName x) \<and> matchesKey (butlast (sanitizeFileName x))) \<and>
   (length (normalise x) \<le> 50 \<longrightarrow>
      sanitizeFileName x = [] \<or> matchesKey (sanitizeFileName x))"
  using sanitize_shape [of x] sanitize_props(4) [of x] by auto

text \<open>Claim C4, amended, at a text that is not cut.\<close>

theorem sanitize_pattern_amended_witness:
  "length (normalise (js ''My Sunset! Photo'')) \<le> 50 \<and>
   length (sanitizeFileName (js ''My Sunset! Photo'')) \<le> 50 \<and>
   sanitizeFileName (js ''My Sunset! Photo'') \<noteq> [] \<and>
   matchesKey (sanitizeFileName (js ''My Sunset! Photo''))"
proof -
  have a: "length (normalise (js ''My Sunset! Photo'')) \<le> 50" by code_simp
  have b: "sanitizeFileName (js ''My Sunset! Photo'') \<noteq> []" by code_simp
  from sanitize_pattern_amended [of "js ''My Sunset! Photo''"] a b show ?thesis by blast
qed

text \<open>
  Claim C5 as stated fails at the same text: its output ends in an underscore, which a
  second application removes.
\<close>

theorem sanitize_idempotent_counterexample:
  "sanitizeFileName (sanitizeFileName (js ''aaaaaaaaaaaaaaaaaaaaaaaaaaaaaaaaaaaaaaaaaaaaaaaaa_b'')) \<noteq>
   sanitizeFileName (js ''aaaaaaaaaaaaaaaaaaaaaaaaaaaaaaaaaaaaaaaaaaaaaaaaa_b'')"
  by code_simp

text \<open>
  Claim C5, amended. A second application removes the trailing underscore of the first
  output if there is one and changes nothing else; so \<open>sanitizeFileName\<close> is idempotent on
  every input whose output does not end in an underscore, in particular when the
  normalised text has at most 50 code units, and two applications always give a fixed
  point.
\<close>

theorem sanitize_idempotent_amended:
  "sanitizeFileName (sanitizeFileName x) = stripEnds (sanitizeFileName x) \<and>
   (\<not> endsWithUnderscore (sanitizeFileName x) \<longrightarrow>
      sanitizeFileName (sanitizeFileName x) = sanitizeFileName x) \<and>
   (length (normalise x) \<le> 50 \<longrightarrow>
      sanitizeFileName (sanitizeFileName x) = sanitizeFileName x) \<and>
   sanitizeFileName (sanitizeFileName (sanitizeFileName x)) =
     sanitizeFileName (sanitizeFileName x)"
proof -
  let ?y = "sanitizeFileName x"
  note p = sanitize_props [of x]
  have clean: "stripEnds ?y = ?y" if "\<not> endsWithUnderscore ?y"
    using p(3) that by (rule stripEnds_clean)
  have short: "\<not> endsWithUnderscore ?y" if "length (normalise x) \<le> 50"
    using that normalise_props(4) [of x] by (simp add: sanitize_normalise)
  have "stripEnds (stripEnds ?y) = stripEnds ?y"
    using stripEnds_props(2,3) [OF p(2)] by (rule stripEnds_clean [rotated])
  then have "stripEnds (sanitizeFileName ?y) = sanitizeFileName ?y"
    by (simp only: sanitize_twice [of x])
  then have "sanitizeFileName (sanitizeFileName ?y) = sanitizeFileName ?y"
    by (simp only: sanitize_twice [of ?y])
  with clean short sanitize_twice [of x] show ?thesis by simp
qed

text \<open>Claim C5, amended, at the text \<^verbatim>\<open>a red fox\<close>.\<close>

theorem sanitize_idempotent_amended_witness:
  "\<not> endsWithUnderscore (sanitizeFileName (js ''a red fox'')) \<and>
   length (normalise (js ''a red fox'')) \<le> 50 \<and>
   sanitizeFileName (sanitizeFileName (js ''a red fox'')) = sanitizeFileName (js ''a red fox'')"
proof -
  have a: "\<not> endsWithUnderscore (sanitizeFileName (js ''a red fox''))" by code_simp
  have b: "length (normalise (js ''a red fox'')) \<le> 50" by code_simp
  from sanitize_idempotent_amended [of "js ''a red fox''"] a b show ?thesis by blast
qed

section \<open>Properties of the gallery refresh\<close>

lemma run_append: "run (es @ fs) s = run fs (run es s)"
  by (simp add: run_def)

lemma run_silent: "(\<And>e. e \<in> set es \<Longrightarrow> applyEffect e = (\<lambda>s. s)) \<Longrightarrow> run es s = s"
  unfolding run_def by (induction es arbitrary: s) auto

lemma imageUrl_console:
  "e \<in> set (fst (imageUrl createSignedUrl f)) \<Longrightarrow> applyEffect e = (\<lambda>s. s) \<and> \<not> isSetImages e"
  by (auto simp: imageUrl_def Let_def split: if_splits option.splits)

lemma callbacks_console:
  "e \<in> set (concat (map (fst \<circ> imageUrl createSignedUrl) files)) \<Longrightarrow>
     applyEffect e = (\<lambda>s. s) \<and> \<not> isSetImages e"
  using imageUrl_console by fastforce

lemma run_callbacks:
  "run (concat (map (fst \<circ> imageUrl createSignedUrl) files)) s = s"
  by (rule run_silent) (simp add: callbacks_console)

lemma fetchImages_listed:
  "error listing = None \<Longrightarrow> data listing = Some files \<Longrightarrow>
   fetchImages listing createSignedUrl =
     \<lparr>effects = concat (map (fst \<circ> imageUrl createSignedUrl) files) @
                 [SetImages (map (snd \<circ> imageUrl createSignedUrl) files)],
      thrown = None\<rparr>"
  by (simp add: fetchImages_def Let_def)

lemma run_fetchImages_listed:
  assumes "error listing = None" and "data listing = Some files"
  shows "run (effects (fetchImages listing createSignedUrl)) s =
     s\<lparr>images := map (snd \<circ> imageUrl createSignedUrl) files\<rparr>"
proof -
  have "run [SetImages v] t = t\<lparr>images := v\<rparr>" for v t
    by (simp add: run_def)
  then show ?thesis
    by (simp add: fetchImages_listed [OF assms] run_append run_callbacks)
qed

lemma imageUrl_real:
  "name f \<noteq> js ''.emptyFolderPlaceholder'' \<Longrightarrow>
   snd (imageUrl createSignedUrl f) =
     (case signedUrlError (createSignedUrl (name f) 60) of
        Some e \<Rightarrow> []
      | None \<Rightarrow>
         (case signedUrlData (createSignedUrl (name f) 60) of
            None \<Rightarrow> []
          | Some d \<Rightarrow> signedUrl d))"
  by (simp add: imageUrl_def Let_def split: option.splits)

text \<open>
  Claim C2. When the listing succeeds and holds no placeholder name, \<open>fetchImages\<close> does
  not throw, and the gallery it writes has one entry per listed object, in listing order:
  entry \<open>i\<close> is the empty string when the signed URL of object \<open>i\<close> could not be made
  (or the response holds no data), and the signed URL otherwise.
\<close>

theorem fetchImages_order:
  assumes "error listing = None" and "data listing = Some files"
    and "\<forall>f \<in> set files. name f \<noteq> js ''.emptyFolderPlaceholder''"
  shows "thrown (fetchImages listing createSignedUrl) = None \<and>
    length (images (run (effects (fetchImages listing createSignedUrl)) s)) = length files \<and>
    (\<forall>i < length files.
       images (run (effects (fetchImages listing createSignedUrl)) s) ! i =
         (case signedUrlError (createSignedUrl (name (files ! i)) 60) of
            Some e \<Rightarrow> []
          | None \<Rightarrow>
             (case signedUrlData (createSignedUrl (name (files ! i)) 60) of
                None \<Rightarrow> []
              | Some d \<Rightarrow> signedUrl d)))"
proof (intro conjI allI impI)
  show "thrown (fetchImages listing createSignedUrl) = None"
    by (simp add: fetchImages_listed [OF assms(1,2)])
  show "length (images (run (effects (fetchImages listing createSignedUrl)) s)) = length files"
    by (simp add: run_fetchImages_listed [OF assms(1,2)])
next
  fix i assume i: "i < length files"
  with assms(3) have "name (files ! i) \<noteq> js ''.emptyFolderPlaceholder''"
    by simp
  from imageUrl_real [OF this] i
  show "images (run (effects (fetchImages listing createSignedUrl)) s) ! i =
         (case signedUrlError (createSignedUrl (name (files ! i)) 60) of
            Some e \<Rightarrow> []
          | None \<Rightarrow>
             (case signedUrlData (createSignedUrl (name (files ! i)) 60) of
                None \<Rightarrow> []
              | Some d \<Rightarrow> signedUrl d))"
    by (simp add: run_fetchImages_listed [OF assms(1,2)])
qed

text \<open>Claim C2 at the names \<^verbatim>\<open>a\<close>, \<^verbatim>\<open>b\<close>, \<^verbatim>\<open>c\<close>, where \<^verbatim>\<open>b\<close> cannot be signed.\<close>

theorem fetchImages_order_witness:
  "error \<lparr>data = Some [\<lparr>name = js ''a''\<rparr>, \<lparr>name = js ''b''\<rparr>, \<lparr>name = js ''c''\<rparr>],
           error = None\<rparr> = None \<and>
   list_all (\<lambda>f. name f \<noteq> js ''.emptyFolderPlaceholder'')
     [\<lparr>name = js ''a''\<rparr>, \<lparr>name = js ''b''\<rparr>, \<lparr>name = js ''c''\<rparr>] \<and>
   length (images (run (effects (fetchImages
      \<lparr>data = Some [\<lparr>name = js ''a''\<rparr>, \<lparr>name = js ''b''\<rparr>, \<lparr>name = js ''c''\<rparr>], error = None\<rparr>
      (\<lambda>n ttl. if n = js ''b''
         then \<lparr>signedUrlData = None, signedUrlError = Some (StorageError (js ''not found''))\<rparr>
         else \<lparr>signedUrlData = Some \<lparr>signedUrl = js ''https://signed/'' @ n\<rparr>,
               signedUrlError = None\<rparr>))) initialState)) = 3 \<and>
   images (run (effects (fetchImages
      \<lparr>data = Some [\<lparr>name = js ''a''\<rparr>, \<lparr>name = js ''b''\<rparr>, \<lparr>name = js ''c''\<rparr>], error = None\<rparr>
      (\<lambda>n ttl. if n = js ''b''
         then \<lparr>signedUrlData = None, signedUrlError = Some (StorageError (js ''not found''))\<rparr>
         else \<lparr>signedUrlData = Some \<lparr>signedUrl = js ''https://signed/'' @ n\<rparr>,
               signedUrlError = None\<rparr>))) initialState) ! 1 = []"
proof -
  let ?files = "[\<lparr>name = js ''a''\<rparr>, \<lparr>name = js ''b''\<rparr>, \<lparr>name = js ''c''\<rparr>]"
  let ?listing = "\<lparr>data = Some ?files, error = None\<rparr>"
  let ?sign = "\<lambda>n (ttl::nat). if n = js ''b''
         then \<lparr>signedUrlData = None, signedUrlError = Some (StorageError (js ''not found''))\<rparr>
         else \<lparr>signedUrlData = Some \<lparr>signedUrl = js ''https://signed/'' @ n\<rparr>,
               signedUrlError = None\<rparr>"
  have h1: "error ?listing = None" by simp
  have h2: "data ?listing = Some ?files" by simp
  have h3: "\<forall>f \<in> set ?files. name f \<noteq> js ''.emptyFolderPlaceholder''"
    by (simp add: js_def)
  from fetchImages_order [OF h1 h2 h3, of ?sign initialState]
  have "length (images (run (effects (fetchImages ?listing ?sign)) initialState)) = 3"
    and "images (run (effects (fetchImages ?listing ?sign)) initialState) ! 1 = []"
    by simp_all
  moreover from h3 have "list_all (\<lambda>f. name f \<noteq> js ''.emptyFolderPlaceholder'') ?files"
    by (simp only: list_all_iff)
  ultimately show ?thesis using h1 by blast
qed

text \<open>
  Claim C1 says that a placeholder entry is left out of the gallery. On a listing of the
  placeholder and one object, \<open>fetchImages\<close> writes two entries, the first of them empty.
\<close>

theorem fetchImages_placeholder_kept:
  "images (run (effects (fetchImages
      \<lparr>data = Some [\<lparr>name = js ''.emptyFolderPlaceholder''\<rparr>, \<lparr>name = js ''fox''\<rparr>],
       error = None\<rparr>
      (\<lambda>n ttl. \<lparr>signedUrlData = Some \<lparr>signedUrl = js ''https://signed/'' @ n\<rparr>,
                signedUrlError = None\<rparr>))) initialState)
   = [[], js ''https://signed/fox'']"
  by (simp add: fetchImages_def imageUrl_def run_def js_def)

text \<open>
  Claim C9. When the listing reports an error, \<open>fetchImages\<close> leaves the state as it is
  and writes no gallery. When the listing succeeds, the gallery is written exactly once
  and the state becomes the old one with the gallery replaced by the results of all
  callbacks of the listing, in listing order. In every run the gallery is written at most
  once, and a write is the last effect of the handler and holds the result of every
  callback.
\<close>

theorem fetchImages_gallery_write:
  "(error listing \<noteq> None \<longrightarrow>
      run (effects (fetchImages listing createSignedUrl)) s = s \<and>
      filter isSetImages (effects (fetchImages listing createSignedUrl)) = []) \<and>
   (\<forall>files. error listing = None \<and> data listing = Some files \<longrightarrow>
      filter isSetImages (effects (fetchImages listing createSignedUrl)) =
        [SetImages (map (\<lambda>f. snd (imageUrl createSignedUrl f)) files)] \<and>
      run (effects (fetchImages listing createSignedUrl)) s =
        s\<lparr>images := map (\<lambda>f. snd (imageUrl createSignedUrl f)) files\<rparr> \<and>
      length (images (run (effects (fetchImages listing createSignedUrl)) s)) = length files) \<and>
   length (filter isSetImages (effects (fetchImages listing createSignedUrl))) \<le> 1 \<and>
   (\<forall>before urls after.
      effects (fetchImages listing createSignedUrl) = before @ SetImages urls # after \<longrightarrow>
      after = [] \<and>
      (\<exists>files. error listing = None \<and> data listing = Some files \<and>
         urls = map (\<lambda>f. snd (imageUrl createSignedUrl f)) files))"
proof -
  let ?r = "fetchImages listing createSignedUrl"
  have failed: "run (effects ?r) s = s \<and> filter isSetImages (effects ?r) = []"
    if "error listing \<noteq> None"
    using that by (auto simp: fetchImages_def run_def)
  have quiet: "filter isSetImages (concat (map (fst \<circ> imageUrl createSignedUrl) files)) = []"
    for files
    by (simp only: filter_empty_conv) (blast dest: callbacks_console)
  have listed: "filter isSetImages (effects ?r) =
        [SetImages (map (\<lambda>f. snd (imageUrl createSignedUrl f)) files)] \<and>
      run (effects ?r) s = s\<lparr>images := map (\<lambda>f. snd (imageUrl createSignedUrl f)) files\<rparr> \<and>
      length (images (run (effects ?r) s)) = length files"
    if f: "error listing = None" "data listing = Some files" for files
  proof -
    have "filter isSetImages (effects ?r) = [SetImages (map (snd \<circ> imageUrl createSignedUrl) files)]"
      by (simp add: fetchImages_listed [OF f] quiet)
    moreover have "run (effects ?r) s = s\<lparr>images := map (snd \<circ> imageUrl createSignedUrl) files\<rparr>"
      by (rule run_fetchImages_listed [OF f])
    ultimately show ?thesis by (simp add: comp_def)
  qed
  from quiet have once: "length (filter isSetImages (effects ?r)) \<le> 1"
    by (simp add: fetchImages_def Let_def split: option.splits)
  have last: "after = [] \<and>
      (\<exists>files. error listing = None \<and> data listing = Some files \<and>
         urls = map (\<lambda>f. snd (imageUrl createSignedUrl f)) files)"
    if eq: "effects ?r = before @ SetImages urls # after" for before urls after
  proof -
    from eq have mem: "SetImages urls \<in> set (effects ?r)"
      by simp
    have "error listing = None \<and> (\<exists>files. data listing = Some files)"
    proof (rule ccontr)
      assume "\<not> ?thesis"
      then have "\<forall>e \<in> set (effects ?r). \<not> isSetImages e"
        by (auto simp: fetchImages_def split: option.splits)
      with mem show False by auto
    qed
    then obtain files where f: "error listing = None" "data listing = Some files"
      by blast
    let ?cb = "concat (map (fst \<circ> imageUrl createSignedUrl) files)"
    let ?all = "map (snd \<circ> imageUrl createSignedUrl) files"
    from eq have eq': "?cb @ [SetImages ?all] = before @ SetImages urls # after"
      by (simp add: fetchImages_listed [OF f])
    have nocb: "SetImages urls \<notin> set ?cb"
      using callbacks_console [of "SetImages urls" createSignedUrl files] by auto
    have after: "after = []"
    proof (cases after rule: rev_cases)
      case Nil
      then show ?thesis .
    next
      case (snoc rest x)
      with eq' have "?cb = before @ SetImages urls # rest"
        by (metis append_Cons append_assoc butlast_snoc)
      with nocb show ?thesis by simp
    qed
    with eq' have "urls = ?all"
      by (metis effect.inject(3) last_snoc)
    with f after show ?thesis
      by (auto simp: comp_def)
  qed
  from failed listed once last show ?thesis by blast
qed

text \<open>
  Claim C9 at a failed listing, with a gallery already shown, and at a listing of one
  object, which replaces that gallery.
\<close>

theorem fetchImages_gallery_write_witness:
  "error \<lparr>data = None, error = Some (StorageError (js ''denied''))\<rparr> \<noteq> None \<and>
   run (effects (fetchImages \<lparr>data = None, error = Some (StorageError (js ''denied''))\<rparr>
          (\<lambda>n ttl. \<lparr>signedUrlData = None, signedUrlError = None\<rparr>)))
       (initialState\<lparr>images := [js ''https://signed/old'']\<rparr>)
     = initialState\<lparr>images := [js ''https://signed/old'']\<rparr> \<and>
   images (run (effects (fetchImages \<lparr>data = Some [\<lparr>name = js ''fox''\<rparr>], error = None\<rparr>
          (\<lambda>n ttl. \<lparr>signedUrlData = Some \<lparr>signedUrl = js ''https://signed/'' @ n\<rparr>,
                    signedUrlError = None\<rparr>)))
       (initialState\<lparr>images := [js ''https://signed/old'']\<rparr>))
     = [js ''https://signed/fox''] \<and>
   effects (fetchImages \<lparr>data = Some [\<lparr>name = js ''fox''\<rparr>], error = None\<rparr>
          (\<lambda>n ttl. \<lparr>signedUrlData = Some \<lparr>signedUrl = js ''https://signed/'' @ n\<rparr>,
                    signedUrlError = None\<rparr>))
     = [] @ SetImages [js ''https://signed/fox''] # [] \<and>
   (\<exists>files. error \<lparr>data = Some [\<lparr>name = js ''fox''\<rparr>], error = None\<rparr> = None \<and>
      data \<lparr>data = Some [\<lparr>name = js ''fox''\<rparr>], error = None\<rparr> = Some files \<and>
      [js ''https://signed/fox''] =
        map (\<lambda>f. snd (imageUrl
          (\<lambda>n ttl. \<lparr>signedUrlData = Some \<lparr>signedUrl = js ''https://signed/'' @ n\<rparr>,
                    signedUrlError = None\<rparr>) f)) files)"
proof -
  let ?failed = "\<lparr>data = None, error = Some (StorageError (js ''denied''))\<rparr>"
  let ?old = "initialState\<lparr>images := [js ''https://signed/old'']\<rparr>"
  let ?files = "[\<lparr>name = js ''fox''\<rparr>]"
  let ?listed = "\<lparr>data = Some ?files, error = None\<rparr>"
  let ?sign = "\<lambda>n (ttl::nat). \<lparr>signedUrlData = Some \<lparr>signedUrl = js ''https://signed/'' @ n\<rparr>,
                    signedUrlError = None :: storage_error option\<rparr>"
  have h: "error ?failed \<noteq> None"
    by simp
  from fetchImages_gallery_write
    [of ?failed "\<lambda>n ttl. \<lparr>signedUrlData = None, signedUrlError = None\<rparr>" ?old] h
  have a: "run (effects (fetchImages ?failed
      (\<lambda>n ttl. \<lparr>signedUrlData = None, signedUrlError = None\<rparr>))) ?old = ?old"
    by blast
  have ok: "error ?listed = None \<and> data ?listed = Some ?files"
    by simp
  have "run (effects (fetchImages ?listed ?sign)) ?old =
      ?old\<lparr>images := map (\<lambda>f. snd (imageUrl ?sign f)) ?files\<rparr>"
    by (rule fetchImages_gallery_write
      [of ?listed ?sign ?old, THEN conjunct2, THEN conjunct1, rule_format, OF ok,
       THEN conjunct2, THEN conjunct1])
  then have w: "images (run (effects (fetchImages ?listed ?sign)) ?old) = [js ''https://signed/fox'']"
    by (simp add: imageUrl_def js_def)
  have e: "effects (fetchImages ?listed ?sign) = [] @ SetImages [js ''https://signed/fox''] # []"
    by (simp add: fetchImages_def imageUrl_def js_def)
  have b: "\<exists>files. error ?listed = None \<and> data ?listed = Some files \<and>
      [js ''https://signed/fox''] = map (\<lambda>f. snd (imageUrl ?sign f)) files"
    by (rule fetchImages_gallery_write
      [of ?listed ?sign initialState, THEN conjunct2, THEN conjunct2, THEN conjunct2,
       rule_format, OF e, THEN conjunct2])
  show ?thesis
    by (rule conjI [OF h conjI [OF a conjI [OF w conjI [OF e b]]]])
qed

section \<open>Properties of saving\<close>

lemma semicolon_not_word: "\<not> isWordChar 0x3B"
  by (simp add: isWordChar_def isAlnum_def isLower_def isUpper_def isDigit_def underscore_def)

lemma base64_marker: "js '';base64,'' = 0x3B # js ''base64,''"
  by (simp add: js_def)

lemma strip_present:
  assumes "sub \<noteq> []" and "list_all isWordChar sub"
  shows "stripDataUriPrefix (js ''data:image/'' @ sub @ js '';base64,'' @ rest) = rest"
proof -
  let ?q = "js '';base64,''"
  have w: "\<And>c. c \<in> set sub \<Longrightarrow> isWordChar c"
    using assms(2) by (simp add: list_all_iff)
  have "takeWhile isWordChar (?q @ rest) = []"
    by (simp add: base64_marker semicolon_not_word)
  then have tw: "takeWhile isWordChar (sub @ ?q @ rest) = sub"
    using w by (simp add: takeWhile_append2)
  have "dropWhile isWordChar (?q @ rest) = ?q @ rest"
    by (simp add: base64_marker semicolon_not_word)
  then have dw: "dropWhile isWordChar (sub @ ?q @ rest) = ?q @ rest"
    using w by (simp add: dropWhile_append2)
  show ?thesis
    unfolding stripDataUriPrefix_def Let_def
    using assms(1) by (simp add: tw dw)
qed

lemma strip_changes:
  assumes "stripDataUriPrefix str \<noteq> str"
  shows "\<exists>sub rest. sub \<noteq> [] \<and> list_all isWordChar sub \<and>
           str = js ''data:image/'' @ sub @ js '';base64,'' @ rest"
proof -
  let ?p = "js ''data:image/''" and ?q = "js '';base64,''"
  let ?rest = "drop (length ?p) str"
  let ?sub = "takeWhile isWordChar ?rest" and ?tail = "dropWhile isWordChar ?rest"
  from assms have c: "take (length ?p) str = ?p" "?sub \<noteq> []" "take (length ?q) ?tail = ?q"
    unfolding stripDataUriPrefix_def Let_def by (auto split: if_splits)
  have "str = take (length ?p) str @ ?rest" by simp
  also have "?rest = ?sub @ ?tail" by simp
  also have "?tail = take (length ?q) ?tail @ drop (length ?q) ?tail" by simp
  finally have "str = ?p @ ?sub @ ?q @ drop (length ?q) ?tail"
    using c(1,3) by simp
  moreover have "list_all isWordChar ?sub"
    by (auto simp: list_all_iff dest: set_takeWhileD)
  ultimately show ?thesis using c(2) by blast
qed

lemma colon_not_base64: "\<not> (isBase64Char 0x3A \<or> (0x3A :: code_unit) = 0x3D)"
  by (simp add: isBase64Char_def isAlnum_def isLower_def isUpper_def isDigit_def)

lemma strip_base64_text:
  assumes "list_all (\<lambda>c. isBase64Char c \<or> c = 0x3D) b"
  shows "stripDataUriPrefix b = b"
proof (rule ccontr)
  assume "stripDataUriPrefix b \<noteq> b"
  from strip_changes [OF this] obtain sub rest
    where "b = js ''data:image/'' @ sub @ js '';base64,'' @ rest" by blast
  then have "0x3A \<in> set b" by (simp add: js_def)
  with assms colon_not_base64 show False by (auto simp: list_all_iff)
qed

lemma png_prefix: "js ''data:image/png;base64,'' @ b = js ''data:image/'' @ js ''png'' @ js '';base64,'' @ b"
  by (simp add: js_def)

lemma strip_png: "stripDataUriPrefix (js ''data:image/png;base64,'' @ b) = b"
proof -
  have "list_all isWordChar (js ''png'')"
    by (simp add: js_def isWordChar_def isAlnum_def isLower_def)
  moreover have "js ''png'' \<noteq> []" by (simp add: js_def)
  ultimately show ?thesis
    unfolding png_prefix by (intro strip_present)
qed

text \<open>
  Claim C8 says that a prefix \<^verbatim>\<open>data:image/<subtype>;base64,\<close> is cut off whatever the
  subtype. The subtype \<^verbatim>\<open>svg+xml\<close> holds a \<^verbatim>\<open>+\<close>, which \<^verbatim>\<open>\w\<close> does not match: the string
  is left as it is, and decoding it throws where decoding the payload alone gives the
  bytes \<^verbatim>\<open>hi\<close>.
\<close>

theorem stripDataUriPrefix_svg:
  "stripDataUriPrefix (js ''data:image/svg+xml;base64,aGk='') =
     js ''data:image/svg+xml;base64,aGk='' \<and>
   decodeImage (js ''data:image/svg+xml;base64,aGk='') = Inl InvalidCharacterError \<and>
   decodeImage (js ''aGk='') = Inr [0x68, 0x69]"
  by code_simp

text \<open>
  Claim C8, amended. A leading \<^verbatim>\<open>data:image/<subtype>;base64,\<close> whose subtype is one or
  more word characters (\<^verbatim>\<open>[A-Za-z0-9_]\<close>) is cut off before decoding, and every other string
  is decoded as it is. So decoding \<^verbatim>\<open>data:image/png;base64,\<close> followed by \<open>b\<close> is decoding
  \<open>b\<close>, and for a base64 text \<open>b\<close> the handler's decoding gives the same result with and
  without the prefix.
\<close>

theorem stripDataUriPrefix_decode:
  "(sub \<noteq> [] \<and> list_all isWordChar sub \<longrightarrow>
      stripDataUriPrefix (js ''data:image/'' @ sub @ js '';base64,'' @ rest) = rest) \<and>
   ((\<forall>sub' rest'. sub' \<noteq> [] \<and> list_all isWordChar sub' \<longrightarrow>
        str \<noteq> js ''data:image/'' @ sub' @ js '';base64,'' @ rest') \<longrightarrow>
      stripDataUriPrefix str = str) \<and>
   decodeImage (js ''data:image/png;base64,'' @ b) =
     (case atob b of Inl e \<Rightarrow> Inl e | Inr decoded \<Rightarrow> Inr (map ucast decoded)) \<and>
   (list_all (\<lambda>c. isBase64Char c \<or> c = 0x3D) b \<longrightarrow>
      decodeImage (js ''data:image/png;base64,'' @ b) = decodeImage b)"
proof -
  have absent: "stripDataUriPrefix str = str"
    if "\<forall>sub' rest'. sub' \<noteq> [] \<and> list_all isWordChar sub' \<longrightarrow>
        str \<noteq> js ''data:image/'' @ sub' @ js '';base64,'' @ rest'"
    using that strip_changes [of str] by blast
  have png: "decodeImage (js ''data:image/png;base64,'' @ b) =
     (case atob b of Inl e \<Rightarrow> Inl e | Inr decoded \<Rightarrow> Inr (map ucast decoded))"
    by (simp add: decodeImage_def strip_png)
  have same: "decodeImage (js ''data:image/png;base64,'' @ b) = decodeImage b"
    if "list_all (\<lambda>c. isBase64Char c \<or> c = 0x3D) b"
    using strip_base64_text [OF that] by (simp add: decodeImage_def strip_png)
  from strip_present [of sub rest] absent png same show ?thesis by blast
qed

text \<open>
  Claim C8, amended, at the subtype \<^verbatim>\<open>jpeg\<close> and the base64 text \<^verbatim>\<open>aGk=\<close> of the bytes
  \<^verbatim>\<open>hi\<close>.
\<close>

theorem stripDataUriPrefix_decode_witness:
  "list_all isWordChar (js ''jpeg'') \<and>
   stripDataUriPrefix (js ''data:image/'' @ js ''jpeg'' @ js '';base64,'' @ js ''aGk='') = js ''aGk='' \<and>
   stripDataUriPrefix (js ''aGk='') = js ''aGk='' \<and>
   list_all (\<lambda>c. isBase64Char c \<or> c = 0x3D) (js ''aGk='') \<and>
   decodeImage (js ''data:image/png;base64,'' @ js ''aGk='') = decodeImage (js ''aGk='') \<and>
   decodeImage (js ''aGk='') = Inr [0x68, 0x69]"
proof -
  have a: "js ''jpeg'' \<noteq> [] \<and> list_all isWordChar (js ''jpeg'')" by code_simp
  have b: "list_all (\<lambda>c. isBase64Char c \<or> c = 0x3D) (js ''aGk='')" by code_simp
  have c: "decodeImage (js ''aGk='') = Inr [0x68, 0x69]" by code_simp
  have d: "\<forall>sub' rest'. sub' \<noteq> [] \<and> list_all isWordChar sub' \<longrightarrow>
        js ''aGk='' \<noteq> js ''data:image/'' @ sub' @ js '';base64,'' @ rest'"
    by (simp add: js_def)
  from stripDataUriPrefix_decode [of "js ''jpeg''" "js ''aGk=''" "js ''aGk=''" "js ''aGk=''"] a b c d
  show ?thesis by blast
qed

lemma run_upload:
  "run [StorageUpload k b t, ConsoleError m e] s = s" "run [StorageUpload k b t, ConsoleLog m] s = s"
  by (simp_all add: run_def)

text \<open>
  Claim C6 says that whenever an image is held the decoded bytes are uploaded, and nothing
  is thrown. The image \<^verbatim>\<open>data:image/png;base64,undefined\<close>, which \<open>handleGenerateImage\<close>
  leaves behind for an artifact without \<^verbatim>\<open>base64\<close>, has a payload that \<^verbatim>\<open>atob\<close> refuses:
  \<open>handleSaveImage\<close> uploads nothing and throws an \<^verbatim>\<open>InvalidCharacterError\<close>.
\<close>

theorem handleSaveImage_undecodable:
  "handleSaveImage (\<lambda>key bytes contentType. \<lparr>uploadError = None\<rparr>)
     (initialState\<lparr>generatedImage := Some (js ''data:image/png;base64,undefined''),
                    prompt := js ''a red fox''\<rparr>) =
   \<lparr>effects = [], thrown = Some InvalidCharacterError\<rparr>"
  by code_simp

text \<open>
  Claim C6, amended. Without a generated image \<open>handleSaveImage\<close> does nothing. With one
  whose payload decodes, it sends one upload, of the decoded bytes under the key
  \<open>sanitizeFileName (prompt s)\<close> with content type \<^verbatim>\<open>image/png\<close>, logs the outcome of the
  upload, changes no state and does not throw, whatever the storage service answers. With
  one whose payload does not decode, it uploads nothing and throws the error of \<^verbatim>\<open>atob\<close>;
  the handler throws in no other case. The prompt \<^verbatim>\<open>a red fox\<close> gives the key
  \<^verbatim>\<open>a_red_fox\<close>.
\<close>

theorem handleSaveImage_upload:
  "(generatedImage s = None \<or> generatedImage s = Some [] \<longrightarrow>
      handleSaveImage upload s = \<lparr>effects = [], thrown = None\<rparr>) \<and>
   (\<forall>generated bytes.
      generatedImage s = Some generated \<and> generated \<noteq> [] \<and> decodeImage generated = Inr bytes \<longrightarrow>
      thrown (handleSaveImage upload s) = None \<and>
      run (effects (handleSaveImage upload s)) s = s \<and>
      effects (handleSaveImage upload s) =
        [StorageUpload (sanitizeFileName (prompt s)) bytes (js ''image/png''),
         case uploadError (upload (sanitizeFileName (prompt s)) bytes (js ''image/png'')) of
           Some e \<Rightarrow> ConsoleError (js ''Error uploading image:'') e
         | None \<Rightarrow> ConsoleLog (js ''Image uploaded successfully'')]) \<and>
   (\<forall>generated e.
      generatedImage s = Some generated \<and> generated \<noteq> [] \<and> decodeImage generated = Inl e \<longrightarrow>
      handleSaveImage upload s = \<lparr>effects = [], thrown = Some e\<rparr>) \<and>
   (\<forall>e. thrown (handleSaveImage upload s) = Some e \<longrightarrow>
      (\<exists>generated. generatedImage s = Some generated \<and> decodeImage generated = Inl e)) \<and>
   sanitizeFileName (js ''a red fox'') = js ''a_red_fox''"
proof -
  have throws: "\<exists>generated. generatedImage s = Some generated \<and> decodeImage generated = Inl e"
    if "thrown (handleSaveImage upload s) = Some e" for e
    using that by (auto simp: handleSaveImage_def Let_def split: option.splits if_splits sum.splits)
  have noop: "handleSaveImage upload s = \<lparr>effects = [], thrown = None\<rparr>"
    if "generatedImage s = None \<or> generatedImage s = Some []"
    using that by (auto simp: handleSaveImage_def)
  have held: "thrown (handleSaveImage upload s) = None \<and>
      run (effects (handleSaveImage upload s)) s = s \<and>
      effects (handleSaveImage upload s) =
        [StorageUpload (sanitizeFileName (prompt s)) bytes (js ''image/png''),
         case uploadError (upload (sanitizeFileName (prompt s)) bytes (js ''image/png'')) of
           Some e \<Rightarrow> ConsoleError (js ''Error uploading image:'') e
         | None \<Rightarrow> ConsoleLog (js ''Image uploaded successfully'')]"
    if "generatedImage s = Some generated" "generated \<noteq> []" "decodeImage generated = Inr bytes"
    for generated bytes
    using that by (simp add: handleSaveImage_def Let_def run_upload split: option.splits)
  have refused: "handleSaveImage upload s = \<lparr>effects = [], thrown = Some e\<rparr>"
    if "generatedImage s = Some generated" "generated \<noteq> []" "decodeImage generated = Inl e"
    for generated e
    using that by (simp add: handleSaveImage_def Let_def)
  have fox: "sanitizeFileName (js ''a red fox'') = js ''a_red_fox''"
    by code_simp
  from noop held refused throws fox show ?thesis by blast
qed

text \<open>
  Claim C6, amended, at the prompt \<^verbatim>\<open>a red fox\<close> with the image
  \<^verbatim>\<open>data:image/png;base64,aGk=\<close> and a storage service that refuses the upload, at the
  initial state, and at an image whose payload is the text \<^verbatim>\<open>undefined\<close>.
\<close>

theorem handleSaveImage_upload_witness:
  "decodeImage (js ''data:image/png;base64,aGk='') = Inr [0x68, 0x69] \<and>
   handleSaveImage (\<lambda>key bytes contentType. \<lparr>uploadError = Some (StorageError (js ''Duplicate''))\<rparr>)
     (initialState\<lparr>generatedImage := Some (js ''data:image/png;base64,aGk=''),
                    prompt := js ''a red fox''\<rparr>) =
     \<lparr>effects = [StorageUpload (js ''a_red_fox'') [0x68, 0x69] (js ''image/png''),
                 ConsoleError (js ''Error uploading image:'') (StorageError (js ''Duplicate''))],
      thrown = None\<rparr> \<and>
   handleSaveImage (\<lambda>key bytes contentType. \<lparr>uploadError = None\<rparr>) initialState =
     \<lparr>effects = [], thrown = None\<rparr> \<and>
   decodeImage (js ''data:image/png;base64,undefined'') = Inl InvalidCharacterError \<and>
   handleSaveImage (\<lambda>key bytes contentType. \<lparr>uploadError = None\<rparr>)
     (initialState\<lparr>generatedImage := Some (js ''data:image/png;base64,undefined'')\<rparr>) =
     \<lparr>effects = [], thrown = Some InvalidCharacterError\<rparr>"
proof -
  let ?refuse = "\<lambda>(key::js_string) (bytes::8 word list) (contentType::js_string).
               \<lparr>uploadError = Some (StorageError (js ''Duplicate''))\<rparr>"
  let ?accept = "\<lambda>(key::js_string) (bytes::8 word list) (contentType::js_string).
               \<lparr>uploadError = None :: storage_error option\<rparr>"
  let ?s = "initialState\<lparr>generatedImage := Some (js ''data:image/png;base64,aGk=''),
                    prompt := js ''a red fox''\<rparr>"
  let ?u = "initialState\<lparr>generatedImage := Some (js ''data:image/png;base64,undefined'')\<rparr>"
  have g: "generatedImage ?s = Some (js ''data:image/png;base64,aGk='')"
    and p: "prompt ?s = js ''a red fox''"
    by (simp_all add: initialState_def)
  have n: "js ''data:image/png;base64,aGk='' \<noteq> []" by (simp add: js_def)
  have d: "decodeImage (js ''data:image/png;base64,aGk='') = Inr [0x68, 0x69]" by code_simp
  from handleSaveImage_upload [of ?s ?refuse] g n d
  have "thrown (handleSaveImage ?refuse ?s) = None"
    and "effects (handleSaveImage ?refuse ?s) =
        [StorageUpload (sanitizeFileName (prompt ?s)) [0x68, 0x69] (js ''image/png''),
         case uploadError (?refuse (sanitizeFileName (prompt ?s)) [0x68, 0x69] (js ''image/png'')) of
           Some e \<Rightarrow> ConsoleError (js ''Error uploading image:'') e
         | None \<Rightarrow> ConsoleLog (js ''Image uploaded successfully'')]"
    and fox: "sanitizeFileName (js ''a red fox'') = js ''a_red_fox''"
    by blast+
  then have held: "handleSaveImage ?refuse ?s =
     \<lparr>effects = [StorageUpload (js ''a_red_fox'') [0x68, 0x69] (js ''image/png''),
                 ConsoleError (js ''Error uploading image:'') (StorageError (js ''Duplicate''))],
      thrown = None\<rparr>"
    by (simp add: p handler_result.equality)
  have "generatedImage initialState = None" by (simp add: initialState_def)
  with handleSaveImage_upload [of initialState ?accept]
  have absent: "handleSaveImage ?accept initialState = \<lparr>effects = [], thrown = None\<rparr>"
    by blast
  have gu: "generatedImage ?u = Some (js ''data:image/png;base64,undefined'')"
    by (simp add: initialState_def)
  have nu: "js ''data:image/png;base64,undefined'' \<noteq> []" by (simp add: js_def)
  have bad: "decodeImage (js ''data:image/png;base64,undefined'') = Inl InvalidCharacterError"
    by code_simp
  from handleSaveImage_upload [of ?u ?accept] gu nu bad
  have refused: "handleSaveImage ?accept ?u = \<lparr>effects = [], thrown = Some InvalidCharacterError\<rparr>"
    by blast
  show ?thesis
    by (rule conjI [OF d conjI [OF held conjI [OF absent conjI [OF bad refused]]]])
qed

section \<open>Properties of generating\<close>

text \<open>
  Claim C3 says that every failing request clears the loading flag. A response with
  status ok and the body \<^verbatim>\<open>{}\<close>, or with a body that is not JSON, makes
  \<open>handleGenerateImage\<close> throw with the flag still set; on a response that is not ok the
  flag is cleared before the throw.
\<close>

theorem handleGenerateImage_stays_busy:
  "handleGenerateImage (\<lambda>req. Inr \<lparr>ok = True, json = Inr (JObject [])\<rparr>) (js ''key'') initialState =
     \<lparr>effects = [SetIsLoading True], thrown = Some TypeError\<rparr> \<and>
   isLoading (run (effects (handleGenerateImage
       (\<lambda>req. Inr \<lparr>ok = True, json = Inr (JObject [])\<rparr>) (js ''key'') initialState)) initialState) \<and>
   handleGenerateImage (\<lambda>req. Inr \<lparr>ok = True, json = Inl SyntaxError\<rparr>) (js ''key'') initialState =
     \<lparr>effects = [SetIsLoading True], thrown = Some SyntaxError\<rparr> \<and>
   handleGenerateImage (\<lambda>req. Inr \<lparr>ok = False, json = Inl SyntaxError\<rparr>) (js ''key'') initialState =
     \<lparr>effects = [SetIsLoading True, SetIsLoading False],
      thrown = Some (Error (js ''Non-200 response: [object Promise]''))\<rparr>"
  by (simp add: handleGenerateImage_def run_def initialState_def)

text \<open>
  Claim C7 as stated fails: on a response with status ok whose first artifact has no
  \<^verbatim>\<open>base64\<close> member nothing is thrown, and the generated image becomes the data URI of the
  text \<^verbatim>\<open>undefined\<close>.
\<close>

theorem handleGenerateImage_missing_base64:
  "handleGenerateImage
     (\<lambda>req. Inr \<lparr>ok = True,
                   json = Inr (JObject [(js ''artifacts'',
                            JArray [JObject [(js ''seed'', JNumber (js ''7'')),
                                             (js ''finishReason'', JString (js ''SUCCESS''))]])])\<rparr>)
     (js ''key'') initialState =
   \<lparr>effects = [SetIsLoading True,
               SetGeneratedImage (Some (js ''data:image/png;base64,undefined'')),
               SetIsLoading False],
    thrown = None\<rparr>"
  by (simp add: handleGenerateImage_def js_def)

text \<open>
  Claim C7, amended. A response that is not ok makes \<open>handleGenerateImage\<close> throw an
  \<^verbatim>\<open>Error\<close> and leaves the generated image as it was. A response that is ok and whose body
  is \<^verbatim>\<open>null\<close>, or whose \<^verbatim>\<open>artifacts\<close> reads as \<^verbatim>\<open>undefined\<close>, as \<^verbatim>\<open>null\<close> or as an empty
  array, makes it throw a \<^verbatim>\<open>TypeError\<close> and leaves the generated image as it was. When
  \<^verbatim>\<open>artifacts[0]\<close> can be read and its \<^verbatim>\<open>base64\<close> reads as \<^verbatim>\<open>undefined\<close>, the body is not
  rejected: nothing is thrown and the image is the data URI of the text \<^verbatim>\<open>undefined\<close>.
\<close>

theorem handleGenerateImage_failures:
  "(fetch (generationRequest apiKey (prompt s)) = Inr resp \<and> \<not> ok resp \<longrightarrow>
      handleGenerateImage fetch apiKey s =
        \<lparr>effects = [SetIsLoading True, SetIsLoading False],
         thrown = Some (Error (js ''Non-200 response: [object Promise]''))\<rparr> \<and>
      generatedImage (run (effects (handleGenerateImage fetch apiKey s)) s) = generatedImage s) \<and>
   (fetch (generationRequest apiKey (prompt s)) = Inr resp \<and> ok resp \<and>
    json resp = Inr responseJSON \<and>
    (responseJSON = JNull \<or>
     getProperty responseJSON (js ''artifacts'') = Inr JUndefined \<or>
     getProperty responseJSON (js ''artifacts'') = Inr JNull \<or>
     getProperty responseJSON (js ''artifacts'') = Inr (JArray [])) \<longrightarrow>
      thrown (handleGenerateImage fetch apiKey s) = Some TypeError \<and>
      generatedImage (run (effects (handleGenerateImage fetch apiKey s)) s) = generatedImage s) \<and>
   (fetch (generationRequest apiKey (prompt s)) = Inr resp \<and> ok resp \<and>
    json resp = Inr responseJSON \<and>
    getProperty responseJSON (js ''artifacts'') = Inr artifacts \<and>
    getProperty artifacts (js ''0'') = Inr artifact \<and>
    getProperty artifact (js ''base64'') = Inr JUndefined \<longrightarrow>
      thrown (handleGenerateImage fetch apiKey s) = None \<and>
      generatedImage (run (effects (handleGenerateImage fetch apiKey s)) s) =
        Some (js ''data:image/png;base64,undefined''))"
proof -
  let ?r = "handleGenerateImage fetch apiKey s"
  let ?q = "fetch (generationRequest apiKey (prompt s))"
  have status: "?r = \<lparr>effects = [SetIsLoading True, SetIsLoading False],
         thrown = Some (Error (js ''Non-200 response: [object Promise]''))\<rparr> \<and>
      generatedImage (run (effects ?r) s) = generatedImage s"
    if "?q = Inr resp" "\<not> ok resp"
    using that by (simp add: handleGenerateImage_def run_def)
  have artifacts: "thrown ?r = Some TypeError \<and>
      generatedImage (run (effects ?r) s) = generatedImage s"
    if "?q = Inr resp" "ok resp" "json resp = Inr responseJSON"
      "responseJSON = JNull \<or>
       getProperty responseJSON (js ''artifacts'') = Inr JUndefined \<or>
       getProperty responseJSON (js ''artifacts'') = Inr JNull \<or>
       getProperty responseJSON (js ''artifacts'') = Inr (JArray [])"
    using that by (auto simp: handleGenerateImage_def run_def)
  have "toStringValue JUndefined = Inr (js ''undefined'')"
    by simp
  then have base64: "thrown ?r = None \<and>
      generatedImage (run (effects ?r) s) = Some (js ''data:image/png;base64,undefined'')"
    if "?q = Inr resp" "ok resp" "json resp = Inr responseJSON"
      "getProperty responseJSON (js ''artifacts'') = Inr artifacts"
      "getProperty artifacts (js ''0'') = Inr artifact"
      "getProperty artifact (js ''base64'') = Inr JUndefined"
    using that by (simp add: handleGenerateImage_def run_def js_def)
  from status artifacts base64 show ?thesis by blast
qed

text \<open>
  Claim C7, amended, at a response that is not ok and at the bodies \<^verbatim>\<open>null\<close>, \<^verbatim>\<open>{}\<close>,
  \<^verbatim>\<open>{"artifacts": null}\<close>, \<^verbatim>\<open>{"artifacts": []}\<close>, \<^verbatim>\<open>{"artifacts": [{}]}\<close> and
  \<^verbatim>\<open>{"artifacts": "abc"}\<close>.
\<close>

theorem handleGenerateImage_failures_witness:
  "thrown (handleGenerateImage (\<lambda>req. Inr \<lparr>ok = False, json = Inr JNull\<rparr>) (js ''key'') initialState) =
     Some (Error (js ''Non-200 response: [object Promise]'')) \<and>
   thrown (handleGenerateImage (\<lambda>req. Inr \<lparr>ok = True, json = Inr JNull\<rparr>)
     (js ''key'') initialState) = Some TypeError \<and>
   thrown (handleGenerateImage (\<lambda>req. Inr \<lparr>ok = True, json = Inr (JObject [])\<rparr>)
     (js ''key'') initialState) = Some TypeError \<and>
   thrown (handleGenerateImage
     (\<lambda>req. Inr \<lparr>ok = True, json = Inr (JObject [(js ''artifacts'', JNull)])\<rparr>)
     (js ''key'') initialState) = Some TypeError \<and>
   thrown (handleGenerateImage
     (\<lambda>req. Inr \<lparr>ok = True, json = Inr (JObject [(js ''artifacts'', JArray [])])\<rparr>)
     (js ''key'') initialState) = Some TypeError \<and>
   generatedImage (run (effects (handleGenerateImage
     (\<lambda>req. Inr \<lparr>ok = True, json = Inr (JObject [(js ''artifacts'', JArray [JObject []])])\<rparr>)
     (js ''key'') initialState)) initialState) = Some (js ''data:image/png;base64,undefined'') \<and>
   generatedImage (run (effects (handleGenerateImage
     (\<lambda>req. Inr \<lparr>ok = True, json = Inr (JObject [(js ''artifacts'', JString (js ''abc''))])\<rparr>)
     (js ''key'') initialState)) initialState) = Some (js ''data:image/png;base64,undefined'')"
proof -
  let ?k = "js ''key''"
  let ?b0 = "JNull"
  let ?b2 = "JObject []"
  let ?b3 = "JObject [(js ''artifacts'', JArray [])]"
  let ?b4 = "JObject [(js ''artifacts'', JArray [JObject []])]"
  let ?b5 = "JObject [(js ''artifacts'', JNull)]"
  let ?b6 = "JObject [(js ''artifacts'', JString (js ''abc''))]"
  let ?f1 = "\<lambda>req::request. Inr \<lparr>ok = False, json = Inr JNull\<rparr> :: js_error + response"
  let ?f0 = "\<lambda>req::request. Inr \<lparr>ok = True, json = Inr ?b0\<rparr> :: js_error + response"
  let ?f2 = "\<lambda>req::request. Inr \<lparr>ok = True, json = Inr ?b2\<rparr> :: js_error + response"
  let ?f3 = "\<lambda>req::request. Inr \<lparr>ok = True, json = Inr ?b3\<rparr> :: js_error + response"
  let ?f4 = "\<lambda>req::request. Inr \<lparr>ok = True, json = Inr ?b4\<rparr> :: js_error + response"
  let ?f5 = "\<lambda>req::request. Inr \<lparr>ok = True, json = Inr ?b5\<rparr> :: js_error + response"
  let ?f6 = "\<lambda>req::request. Inr \<lparr>ok = True, json = Inr ?b6\<rparr> :: js_error + response"
  have a: "thrown (handleGenerateImage ?f1 ?k initialState) =
     Some (Error (js ''Non-200 response: [object Promise]''))"
    using handleGenerateImage_failures
      [of ?f1 ?k initialState "\<lparr>ok = False, json = Inr JNull\<rparr>"]
    by simp
  have z: "thrown (handleGenerateImage ?f0 ?k initialState) = Some TypeError"
    using handleGenerateImage_failures
      [of ?f0 ?k initialState "\<lparr>ok = True, json = Inr ?b0\<rparr>" ?b0]
    by simp
  have b: "thrown (handleGenerateImage ?f2 ?k initialState) = Some TypeError"
    using handleGenerateImage_failures
      [of ?f2 ?k initialState "\<lparr>ok = True, json = Inr ?b2\<rparr>" ?b2]
    by simp
  have n: "thrown (handleGenerateImage ?f5 ?k initialState) = Some TypeError"
    using handleGenerateImage_failures
      [of ?f5 ?k initialState "\<lparr>ok = True, json = Inr ?b5\<rparr>" ?b5]
    by simp
  have c: "thrown (handleGenerateImage ?f3 ?k initialState) = Some TypeError"
    using handleGenerateImage_failures
      [of ?f3 ?k initialState "\<lparr>ok = True, json = Inr ?b3\<rparr>" ?b3]
    by simp
  have d: "generatedImage (run (effects (handleGenerateImage ?f4 ?k initialState)) initialState) =
      Some (js ''data:image/png;base64,undefined'')"
    using handleGenerateImage_failures
      [of ?f4 ?k initialState "\<lparr>ok = True, json = Inr ?b4\<rparr>" ?b4 "JArray [JObject []]" "JObject []"]
    by (simp add: js_def)
  have e: "generatedImage (run (effects (handleGenerateImage ?f6 ?k initialState)) initialState) =
      Some (js ''data:image/png;base64,undefined'')"
    using handleGenerateImage_failures
      [of ?f6 ?k initialState "\<lparr>ok = True, json = Inr ?b6\<rparr>" ?b6 "JString (js ''abc'')"
          "JString (js ''a'')"]
    by (simp add: js_def)
  show ?thesis
    by (rule conjI [OF a conjI [OF z conjI [OF b conjI [OF n conjI [OF c conjI [OF d e]]]]]])
qed

end
